theory Spec2Isabelle
  imports Complex_Main "HOL-Library.AList"
begin

section \<open>Python values used by the tracker and the client\<close>

text \<open>
  Exceptions are values. Only the exceptions that the modelled code paths can meet are
  listed: \<open>int()\<close> on a bad literal, a missing dictionary key, a failing socket call,
  undecodable bytes, a JSON document that does not parse, and attribute access on a
  value of the wrong type.
\<close>

datatype py_exception =
    ValueError string
  | KeyError string
  | OSError
  | UnicodeDecodeError
  | JSONDecodeError
  | AttributeError

text \<open>
  A Python \<open>dict\<close> keeps its keys in insertion order and holds each key once. It is an
  association list; \<open>d[k] = v\<close> overwrites in place or appends, \<open>del d[k]\<close> raises
  \<open>KeyError\<close> on a missing key, \<open>k in d\<close> and \<open>d.get(k)\<close> are \<open>map_of\<close>.
\<close>

type_synonym ('k, 'v) dict = "('k \<times> 'v) list"

definition dict_setitem :: "'k \<Rightarrow> 'v \<Rightarrow> ('k, 'v) dict \<Rightarrow> ('k, 'v) dict" where
  "dict_setitem k v d = AList.update k v d"

definition dict_contains :: "'k \<Rightarrow> ('k, 'v) dict \<Rightarrow> bool" where
  "dict_contains k d = (map_of d k \<noteq> None)"

definition dict_delitem :: "string \<Rightarrow> (string, 'v) dict \<Rightarrow> py_exception + (string, 'v) dict" where
  "dict_delitem k d = (if dict_contains k d then Inr (AList.delete k d) else Inl (KeyError k))"

definition dict_keys :: "('k, 'v) dict \<Rightarrow> 'k list" where
  "dict_keys d = map fst d"

subsection \<open>Text: \<open>str.split()\<close>, \<open>str.strip()\<close>, \<open>str.upper()\<close>, \<open>int()\<close>\<close>

text \<open>
  A character is a code point below 256 (the protocol is ASCII). The white space of
  \<open>str.split()\<close> and \<open>str.strip()\<close> in that range: TAB, LF, VT, FF, CR, the four
  separators FS, GS, RS, US, the blank, NEL and the no-break space.
\<close>

definition py_isspace :: "char \<Rightarrow> bool" where
  "py_isspace c = ((of_char c :: nat) \<in> {9, 10, 11, 12, 13, 28, 29, 30, 31, 32, 133, 160})"

definition py_strip :: "string \<Rightarrow> string" where
  "py_strip s = rev (dropWhile py_isspace (rev (dropWhile py_isspace s)))"

text \<open>\<open>split_from cur s\<close>: the tokens of \<open>s\<close>, where \<open>cur\<close> is the token being read.\<close>

fun split_from :: "string \<Rightarrow> string \<Rightarrow> string list" where
  "split_from cur [] = (if cur = [] then [] else [cur])"
| "split_from cur (c # cs) =
     (if py_isspace c
      then (if cur = [] then split_from [] cs else cur # split_from [] cs)
      else split_from (cur @ [c]) cs)"

definition py_split :: "string \<Rightarrow> string list" where
  "py_split s = split_from [] s"

text \<open>
  \<open>str.upper()\<close> maps \<open>a\<close>..\<open>z\<close> to \<open>A\<close>..\<open>Z\<close>. Of the other code points below
  256 only the sharp s gives ASCII letters (\<open>SS\<close>), and no command name holds \<open>SS\<close>;
  so the comparison of the command word with the four command names comes out as in
  Python.
\<close>

definition py_upper_char :: "char \<Rightarrow> char" where
  "py_upper_char c =
     (case map_of (zip ''abcdefghijklmnopqrstuvwxyz'' ''ABCDEFGHIJKLMNOPQRSTUVWXYZ'') c of
        Some u \<Rightarrow> u
      | None \<Rightarrow> c)"

definition py_upper :: "string \<Rightarrow> string" where
  "py_upper s = map py_upper_char s"

text \<open>
  \<open>int(s)\<close> for a token \<open>s\<close> (a token holds no white space): an optional sign, then
  decimal digits, where single underscores may stand between digits. Anything else
  raises \<open>ValueError\<close>.
\<close>

definition digit_val :: "char \<Rightarrow> nat option" where
  "digit_val c =
     (let n = (of_char c :: nat) in if 48 \<le> n \<and> n \<le> 57 then Some (n - 48) else None)"

text \<open>
  \<open>digits_from acc after_digit s\<close>: \<open>acc\<close> is the value read so far, \<open>after_digit\<close>
  says that the previous character was a digit (so that an underscore, or the end, may
  follow).
\<close>

fun digits_from :: "nat \<Rightarrow> bool \<Rightarrow> string \<Rightarrow> nat option" where
  "digits_from acc after_digit [] = (if after_digit then Some acc else None)"
| "digits_from acc after_digit (c # cs) =
     (if c = CHR ''_''
      then (if after_digit then digits_from acc False cs else None)
      else (case digit_val c of
              None \<Rightarrow> None
            | Some d \<Rightarrow> digits_from (10 * acc + d) True cs))"

definition py_int :: "string \<Rightarrow> py_exception + int" where
  "py_int s =
     (case s of
        [] \<Rightarrow> Inl (ValueError s)
      | c # cs \<Rightarrow>
          (if c = CHR ''-'' then
             (case digits_from 0 False cs of
                None \<Rightarrow> Inl (ValueError s) | Some n \<Rightarrow> Inr (- int n))
           else if c = CHR ''+'' then
             (case digits_from 0 False cs of
                None \<Rightarrow> Inl (ValueError s) | Some n \<Rightarrow> Inr (int n))
           else
             (case digits_from 0 False s of
                None \<Rightarrow> Inl (ValueError s) | Some n \<Rightarrow> Inr (int n))))"

section \<open>The tracker (\<open>peer_tracker.py\<close>)\<close>

text \<open>
  \<open>self.peers\<close> maps a peer id to \<open>{'ip', 'port', 'last_seen'}\<close>. A reading of
  \<open>time.time()\<close> is a real number of seconds, and readings are subtracted and compared
  exactly.
\<close>

record peer_addr =
  ip :: string
  port :: int

record peer_record = peer_addr +
  last_seen :: real

text \<open>One element of the list sent by \<open>GET_PEERS\<close>: \<open>{'peer_id', 'ip', 'port'}\<close>.\<close>

record peer_entry = peer_addr +
  entry_peer_id :: string

text \<open>
  The tracker object: the registry and the timeout of the sweep. The sockets, the lock
  and the \<open>running\<close> flag play no part in what a handler computes. A handler is one
  step on the registry it finds: the handlers take \<open>self.lock\<close> around every write to
  \<open>self.peers\<close>, and the count that \<open>_handle_register\<close> reads after releasing the
  lock is read here in the same step.
\<close>

record tracker =
  peers :: "(string, peer_record) dict"
  peer_timeout :: real

definition PeerTracker_init :: tracker where
  "PeerTracker_init = \<lparr>peers = [], peer_timeout = 300\<rparr>"

text \<open>
  The dictionary handed to \<open>_send_response\<close>:
  \<^item> \<open>ErrorResponse m\<close> is \<open>{'status': 'error', 'message': m}\<close>;
  \<^item> \<open>SuccessResponse m\<close> is \<open>{'status': 'success', 'message': m}\<close>;
  \<^item> \<open>RegisterResponse m n\<close> is \<open>{'status': 'success', 'message': m, 'peer_count': n}\<close>;
  \<^item> \<open>PeersResponse l n\<close> is \<open>{'status': 'success', 'peers': l, 'peer_count': n}\<close>.
  A message is a literal of the source or \<open>str(e)\<close> of a caught exception.
\<close>

datatype message_text = Literal string | StrOf py_exception

datatype response =
    ErrorResponse message_text
  | SuccessResponse message_text
  | RegisterResponse message_text nat
  | PeersResponse "peer_entry list" nat

fun status :: "response \<Rightarrow> string" where
  "status (ErrorResponse m) = ''error''"
| "status (SuccessResponse m) = ''success''"
| "status (RegisterResponse m n) = ''success''"
| "status (PeersResponse l n) = ''success''"

text \<open>
  \<open>_handle_register\<close>. \<open>now\<close> is what \<open>time.time()\<close> returns. \<open>int(parts[3])\<close> may
  raise, before the registry is touched; the exception leaves the handler.
\<close>

definition handle_register ::
  "real \<Rightarrow> string list \<Rightarrow> tracker \<Rightarrow> py_exception + (response \<times> tracker)" where
  "handle_register now parts t =
     (if length parts < 4 then
        Inr (ErrorResponse (Literal ''Invalid format. Use: REGISTER <peer_id> <ip> <port>''), t)
      else
        (let peer_id = parts ! 1; peer_ip = parts ! 2 in
         case py_int (parts ! 3) of
           Inl e \<Rightarrow> Inl e
         | Inr peer_port \<Rightarrow>
             (let t' = t\<lparr>peers := dict_setitem peer_id
                          \<lparr>ip = peer_ip, port = peer_port, last_seen = now\<rparr> (peers t)\<rparr>
              in Inr (RegisterResponse (Literal ''Peer registered successfully'')
                        (length (peers t')), t'))))"

text \<open>\<open>_handle_get_peers\<close>: the list is built from \<open>self.peers.items()\<close>, in order.\<close>

definition handle_get_peers :: "string list \<Rightarrow> tracker \<Rightarrow> response \<times> tracker" where
  "handle_get_peers parts t =
     (let peer_list =
            map (\<lambda>(peer_id, info). \<lparr>ip = ip info, port = port info, entry_peer_id = peer_id\<rparr>)
              (peers t)
      in (PeersResponse peer_list (length peer_list), t))"

text \<open>\<open>_handle_unregister\<close>.\<close>

definition handle_unregister ::
  "string list \<Rightarrow> tracker \<Rightarrow> py_exception + (response \<times> tracker)" where
  "handle_unregister parts t =
     (if length parts < 2 then
        Inr (ErrorResponse (Literal ''Invalid format. Use: UNREGISTER <peer_id>''), t)
      else
        (let peer_id = parts ! 1 in
         if dict_contains peer_id (peers t) then
           (case dict_delitem peer_id (peers t) of
              Inl e \<Rightarrow> Inl e
            | Inr d \<Rightarrow>
                Inr (SuccessResponse (Literal ''Peer unregistered successfully''),
                     t\<lparr>peers := d\<rparr>))
         else Inr (ErrorResponse (Literal ''Peer not found''), t)))"

text \<open>\<open>_handle_heartbeat\<close>: \<open>self.peers[peer_id]['last_seen'] = time.time()\<close>.\<close>

definition handle_heartbeat :: "real \<Rightarrow> string list \<Rightarrow> tracker \<Rightarrow> response \<times> tracker" where
  "handle_heartbeat now parts t =
     (if length parts < 2 then
        (ErrorResponse (Literal ''Invalid format. Use: HEARTBEAT <peer_id>''), t)
      else
        (let peer_id = parts ! 1 in
         case map_of (peers t) peer_id of
           Some info \<Rightarrow>
             (SuccessResponse (Literal ''Heartbeat received''),
              t\<lparr>peers := dict_setitem peer_id (info\<lparr>last_seen := now\<rparr>) (peers t)\<rparr>)
         | None \<Rightarrow> (ErrorResponse (Literal ''Peer not found''), t)))"

text \<open>
  \<open>_handle_client\<close>. The argument \<open>received\<close> is the outcome of
  \<open>conn.recv(4096).decode('utf-8')\<close>: an exception or the text. The result is what is
  handed to \<open>_send_response\<close> (\<open>None\<close> when the handler returns without replying) and
  the tracker afterwards. An exception of the \<open>try\<close> body is answered with
  \<open>{'status': 'error', 'message': str(e)}\<close>; the registry is then as the body left it,
  and the only raising call of the body, \<open>int(parts[3])\<close>, comes before any change.
\<close>

definition handle_client ::
  "real \<Rightarrow> py_exception + string \<Rightarrow> tracker \<Rightarrow> response option \<times> tracker" where
  "handle_client now received t =
     (case received of
        Inl e \<Rightarrow> (Some (ErrorResponse (StrOf e)), t)
      | Inr data \<Rightarrow>
          if data = [] then (None, t)
          else
            (let parts = py_split (py_strip data) in
             if parts = [] then (Some (ErrorResponse (Literal ''Empty command'')), t)
             else
               (let command = py_upper (parts ! 0) in
                if command = ''REGISTER'' then
                  (case handle_register now parts t of
                     Inl e \<Rightarrow> (Some (ErrorResponse (StrOf e)), t)
                   | Inr (r, t') \<Rightarrow> (Some r, t'))
                else if command = ''GET_PEERS'' then
                  (case handle_get_peers parts t of (r, t') \<Rightarrow> (Some r, t'))
                else if command = ''UNREGISTER'' then
                  (case handle_unregister parts t of
                     Inl e \<Rightarrow> (Some (ErrorResponse (StrOf e)), t)
                   | Inr (r, t') \<Rightarrow> (Some r, t'))
                else if command = ''HEARTBEAT'' then
                  (case handle_heartbeat now parts t of (r, t') \<Rightarrow> (Some r, t'))
                else (Some (ErrorResponse (Literal ''Unknown command'')), t))))"

text \<open>
  One pass of the loop body of \<open>_cleanup_inactive_peers\<close>, after the sleep: collect
  the inactive ids, then delete them one by one.
\<close>

fun delete_all :: "string list \<Rightarrow> (string, 'v) dict \<Rightarrow> py_exception + (string, 'v) dict" where
  "delete_all [] d = Inr d"
| "delete_all (peer_id # rest) d =
     (case dict_delitem peer_id d of
        Inl e \<Rightarrow> Inl e
      | Inr d' \<Rightarrow> delete_all rest d')"

definition inactive_peers :: "real \<Rightarrow> tracker \<Rightarrow> string list" where
  "inactive_peers current_time t =
     map fst (filter (\<lambda>(peer_id, info). current_time - last_seen info > peer_timeout t) (peers t))"

definition cleanup_inactive_peers :: "real \<Rightarrow> tracker \<Rightarrow> py_exception + tracker" where
  "cleanup_inactive_peers current_time t =
     (case delete_all (inactive_peers current_time t) (peers t) of
        Inl e \<Rightarrow> Inl e
      | Inr d \<Rightarrow> Inr (t\<lparr>peers := d\<rparr>))"

text \<open>\<open>list()\<close> of the registry: the peer list that \<open>GET_PEERS\<close> sends.\<close>

definition list_peers :: "tracker \<Rightarrow> peer_entry list" where
  "list_peers t =
     (case fst (handle_get_peers [''GET_PEERS''] t) of PeersResponse l n \<Rightarrow> l | _ \<Rightarrow> [])"

text \<open>
  What the tracker goes through: connections, each handled by \<open>_handle_client\<close>, and
  passes of the sweep. Every event carries the reading of the clock at that moment.
  A sweep that raises ends the sweep thread; the run stops there with the exception.
\<close>

datatype tracker_event =
    Connection real "py_exception + string"
  | Sweep real

fun event_time :: "tracker_event \<Rightarrow> real" where
  "event_time (Connection now received) = now"
| "event_time (Sweep now) = now"

fun tracker_step :: "tracker_event \<Rightarrow> tracker \<Rightarrow> py_exception + tracker" where
  "tracker_step (Connection now received) t = Inr (snd (handle_client now received t))"
| "tracker_step (Sweep now) t = cleanup_inactive_peers now t"

fun tracker_run :: "tracker_event list \<Rightarrow> tracker \<Rightarrow> py_exception + tracker" where
  "tracker_run [] t = Inr t"
| "tracker_run (ev # evs) t =
     (case tracker_step ev t of
        Inl e \<Rightarrow> Inl e
      | Inr t' \<Rightarrow> tracker_run evs t')"

text \<open>
  The invariant of the registry at a reading \<open>now\<close> of the clock: one record for
  each peer id, and no record seen later than \<open>now\<close>. \<open>last_seen_kept t t'\<close>: a
  record that is in both registries has not gone back in time.
\<close>

definition registry_ok :: "real \<Rightarrow> tracker \<Rightarrow> bool" where
  "registry_ok now t =
     (distinct (dict_keys (peers t)) \<and> (\<forall>x \<in> set (peers t). last_seen (snd x) \<le> now))"

definition last_seen_kept :: "tracker \<Rightarrow> tracker \<Rightarrow> bool" where
  "last_seen_kept t t' =
     (\<forall>pid r r'. map_of (peers t) pid = Some r \<longrightarrow> map_of (peers t') pid = Some r' \<longrightarrow>
        last_seen r \<le> last_seen r')"

text \<open>
  The requests the handler answers with an error, read off the guards of the source:
  received text that is not empty and is only white space, fewer than four tokens for
  \<open>REGISTER\<close>, a fourth token of \<open>REGISTER\<close> that \<open>int()\<close> rejects, fewer than two
  tokens for \<open>UNREGISTER\<close> or \<open>HEARTBEAT\<close>, or a first token that is none of the four
  command words.
\<close>

definition malformed :: "string \<Rightarrow> bool" where
  "malformed data =
     (data \<noteq> [] \<and>
      (let parts = py_split (py_strip data) in
       parts = [] \<or>
       (let command = py_upper (parts ! 0) in
        (command = ''REGISTER'' \<and> (length parts < 4 \<or> isl (py_int (parts ! 3)))) \<or>
        (command = ''UNREGISTER'' \<and> length parts < 2) \<or>
        (command = ''HEARTBEAT'' \<and> length parts < 2) \<or>
        command \<notin> {''REGISTER'', ''GET_PEERS'', ''UNREGISTER'', ''HEARTBEAT''})))"

text \<open>
  The number of tokens a handler reads: the command word, and the arguments that the
  handler of that command takes out of \<open>parts\<close>.
\<close>

definition tokens_needed :: "string \<Rightarrow> nat" where
  "tokens_needed command =
     (if command = ''REGISTER'' then 4
      else if command = ''UNREGISTER'' \<or> command = ''HEARTBEAT'' then 2
      else 1)"

section \<open>The chat client (\<open>chat_client.py\<close>)\<close>

text \<open>A decoded JSON document, as \<open>json.loads\<close> returns it.\<close>

datatype json =
    JNull
  | JBool bool
  | JNumber real
  | JString string
  | JArray "json list"
  | JObject "(string \<times> json) list"

text \<open>\<open>msg_data.get(key)\<close>: only a dictionary has \<open>get\<close>; a missing key gives \<open>None\<close>.\<close>

definition json_get :: "json \<Rightarrow> string \<Rightarrow> py_exception + json" where
  "json_get v key =
     (case v of
        JObject d \<Rightarrow> Inr (case map_of d key of None \<Rightarrow> JNull | Some x \<Rightarrow> x)
      | _ \<Rightarrow> Inl AttributeError)"

text \<open>An element of \<open>self.messages\<close>: \<open>{'type', 'from', 'content', 'time'}\<close>.\<close>

record message =
  msg_type :: string
  msg_from :: json
  msg_content :: json
  msg_time :: real

text \<open>
  A socket is a handle. The client object: its identity and configuration, the cache of
  outbound connections, the cache of peer addresses and the message history. The
  listening socket, the lock and the \<open>running\<close> flag are left out.
\<close>

type_synonym sock = nat

record chat_client =
  peer_id :: string
  listen_port :: int
  tracker_host :: string
  tracker_port :: int
  peer_connections :: "(string, sock) dict"
  peer_info :: "(string, peer_addr) dict"
  messages :: "message list"

definition ChatClient_init :: "string \<Rightarrow> int \<Rightarrow> string \<Rightarrow> int \<Rightarrow> chat_client" where
  "ChatClient_init pid lport thost tport =
     \<lparr>peer_id = pid, listen_port = lport, tracker_host = thost, tracker_port = tport,
      peer_connections = [], peer_info = [], messages = []\<rparr>"

text \<open>
  The network as the client meets it: \<open>connect\<close> is the outcome of creating a socket
  and calling \<open>sock.connect((ip, port))\<close>, \<open>sendall\<close> the outcome of \<open>conn.sendall\<close>
  for the JSON text of a document (\<open>None\<close>: no exception).
\<close>

record network =
  connect :: "string \<Rightarrow> int \<Rightarrow> py_exception + sock"
  sendall :: "sock \<Rightarrow> json \<Rightarrow> py_exception option"

text \<open>
  The reply to \<open>GET_PEERS\<close> after \<open>json.loads\<close>, with the field types the tracker
  sends. A key may be missing: \<open>result.get\<close> then gives its default, and \<open>peer[...]\<close>
  raises \<open>KeyError\<close>.
\<close>

record peer_json =
  json_peer_id :: "string option"
  json_ip :: "string option"
  json_port :: "int option"

record result_json =
  result_status :: "string option"
  result_peers :: "peer_json list option"

text \<open>
  The loop of \<open>_update_peer_list\<close> over \<open>peers\<close>. An exception ends the loop; what was
  stored before it stays stored.
\<close>

fun update_peers_loop ::
  "string \<Rightarrow> peer_json list \<Rightarrow> (string, peer_addr) dict
     \<Rightarrow> py_exception option \<times> (string, peer_addr) dict" where
  "update_peers_loop own [] info = (None, info)"
| "update_peers_loop own (peer # rest) info =
     (case json_peer_id peer of
        None \<Rightarrow> (Some (KeyError ''peer_id''), info)
      | Some pid \<Rightarrow>
          if pid \<noteq> own then
            (case json_ip peer of
               None \<Rightarrow> (Some (KeyError ''ip''), info)
             | Some peer_ip \<Rightarrow>
                 (case json_port peer of
                    None \<Rightarrow> (Some (KeyError ''port''), info)
                  | Some peer_port \<Rightarrow>
                      update_peers_loop own rest
                        (dict_setitem pid \<lparr>ip = peer_ip, port = peer_port\<rparr> info)))
          else update_peers_loop own rest info)"

text \<open>
  \<open>_update_peer_list\<close>. \<open>exchange\<close> is the outcome of the connect, send, receive and
  \<open>json.loads\<close> that precede the test of the status: an exception or the decoded reply.
  Every exception is caught and printed.
\<close>

definition update_peer_list :: "py_exception + result_json \<Rightarrow> chat_client \<Rightarrow> chat_client" where
  "update_peer_list exchange c =
     (case exchange of
        Inl e \<Rightarrow> c
      | Inr result \<Rightarrow>
          if result_status result = Some ''success'' then
            (let peers = (case result_peers result of None \<Rightarrow> [] | Some l \<Rightarrow> l)
             in c\<lparr>peer_info := snd (update_peers_loop (peer_id c) peers (peer_info c))\<rparr>)
          else c)"

text \<open>
  The peer list of a reply as the tracker sends it: every element has its three keys,
  and no peer id comes twice (the tracker builds the list from the keys of a
  dictionary). \<open>decode_entry\<close> is an element of the tracker's list as the client
  reads it after \<open>json.dumps\<close> and \<open>json.loads\<close>.
\<close>

definition complete_peers :: "peer_json list \<Rightarrow> bool" where
  "complete_peers ps =
     ((\<forall>p \<in> set ps. json_peer_id p \<noteq> None \<and> json_ip p \<noteq> None \<and> json_port p \<noteq> None) \<and>
      distinct (map json_peer_id ps))"

definition decode_entry :: "peer_entry \<Rightarrow> peer_json" where
  "decode_entry e =
     \<lparr>json_peer_id = Some (entry_peer_id e), json_ip = Some (ip e), json_port = Some (port e)\<rparr>"

text \<open>
  \<open>_process_peer_message\<close>. \<open>json_loads\<close> is \<open>json.loads\<close>, \<open>now\<close> the reading of
  \<open>time.time()\<close>. Every exception of the body is caught and printed.
\<close>

definition process_peer_message ::
  "(string \<Rightarrow> py_exception + json) \<Rightarrow> real \<Rightarrow> string \<Rightarrow> chat_client \<Rightarrow> chat_client" where
  "process_peer_message json_loads now message c =
     (case json_loads message of
        Inl e \<Rightarrow> c
      | Inr msg_data \<Rightarrow>
          (case json_get msg_data ''type'' of
             Inl e \<Rightarrow> c
           | Inr mtype \<Rightarrow>
               (case json_get msg_data ''from'' of
                  Inl e \<Rightarrow> c
                | Inr from_peer \<Rightarrow>
                    (case json_get msg_data ''content'' of
                       Inl e \<Rightarrow> c
                     | Inr content \<Rightarrow>
                         if mtype = JString ''direct'' then
                           c\<lparr>messages := messages c @
                               [\<lparr>msg_type = ''direct'', msg_from = from_peer,
                                 msg_content = content, msg_time = now\<rparr>]\<rparr>
                         else if mtype = JString ''broadcast'' then
                           c\<lparr>messages := messages c @
                               [\<lparr>msg_type = ''broadcast'', msg_from = from_peer,
                                 msg_content = content, msg_time = now\<rparr>]\<rparr>
                         else c))))"

text \<open>\<open>_connect_to_peer\<close>: the socket or \<open>None\<close>, and the client afterwards.\<close>

definition connect_to_peer :: "network \<Rightarrow> string \<Rightarrow> chat_client \<Rightarrow> sock option \<times> chat_client" where
  "connect_to_peer net pid c =
     (case map_of (peer_info c) pid of
        None \<Rightarrow> (None, c)
      | Some peer \<Rightarrow>
          (case connect net (ip peer) (port peer) of
             Inl e \<Rightarrow> (None, c)
           | Inr s \<Rightarrow> (Some s, c\<lparr>peer_connections := dict_setitem pid s (peer_connections c)\<rparr>)))"

text \<open>The envelope that \<open>json.dumps\<close> turns into the text on the wire.\<close>

definition envelope :: "string \<Rightarrow> string \<Rightarrow> string \<Rightarrow> json" where
  "envelope kind sender message =
     JObject [(''type'', JString kind), (''from'', JString sender), (''content'', JString message)]"

text \<open>\<open>send_direct_message\<close>: a failed send is caught and printed.\<close>

definition send_direct_message :: "network \<Rightarrow> string \<Rightarrow> string \<Rightarrow> chat_client \<Rightarrow> chat_client" where
  "send_direct_message net pid message c =
     (case map_of (peer_connections c) pid of
        Some conn \<Rightarrow> (case sendall net conn (envelope ''direct'' (peer_id c) message) of _ \<Rightarrow> c)
      | None \<Rightarrow>
          (case connect_to_peer net pid c of
             (None, c') \<Rightarrow> c'
           | (Some conn, c') \<Rightarrow>
               (case sendall net conn (envelope ''direct'' (peer_id c') message) of _ \<Rightarrow> c')))"

text \<open>
  The loop of \<open>broadcast_message\<close> over \<open>list(self.peer_info.keys())\<close>, with the
  counter \<open>sent_count\<close>. An exception of \<open>sendall\<close> is caught inside the loop body, and
  the loop goes on with the next peer.
\<close>

fun broadcast_loop ::
  "network \<Rightarrow> json \<Rightarrow> string list \<Rightarrow> nat \<Rightarrow> chat_client \<Rightarrow> nat \<times> chat_client" where
  "broadcast_loop net msg [] sent_count c = (sent_count, c)"
| "broadcast_loop net msg (pid # rest) sent_count c =
     (case map_of (peer_connections c) pid of
        Some conn \<Rightarrow>
          (case sendall net conn msg of
             None \<Rightarrow> broadcast_loop net msg rest (sent_count + 1) c
           | Some e \<Rightarrow> broadcast_loop net msg rest sent_count c)
      | None \<Rightarrow>
          (case connect_to_peer net pid c of
             (None, c') \<Rightarrow> broadcast_loop net msg rest sent_count c'
           | (Some conn, c') \<Rightarrow>
               (case sendall net conn msg of
                  None \<Rightarrow> broadcast_loop net msg rest (sent_count + 1) c'
                | Some e \<Rightarrow> broadcast_loop net msg rest sent_count c')))"

text \<open>\<open>broadcast_message\<close>: the count it prints, and the client afterwards.\<close>

definition broadcast_message :: "network \<Rightarrow> string \<Rightarrow> chat_client \<Rightarrow> nat \<times> chat_client" where
  "broadcast_message net message c =
     broadcast_loop net (envelope ''broadcast'' (peer_id c) message) (dict_keys (peer_info c)) 0 c"

text \<open>
  Whether the attempt to reach one cached peer fails: the send on its cached
  connection raises, or there is no cached connection and the dial or the send on the
  new connection raises.
\<close>

definition attempt_fails :: "network \<Rightarrow> json \<Rightarrow> chat_client \<Rightarrow> string \<Rightarrow> bool" where
  "attempt_fails net msg c pid =
     (case map_of (peer_connections c) pid of
        Some conn \<Rightarrow> sendall net conn msg \<noteq> None
      | None \<Rightarrow>
          (case map_of (peer_info c) pid of
             None \<Rightarrow> True
           | Some peer \<Rightarrow>
               (case connect net (ip peer) (port peer) of
                  Inl e \<Rightarrow> True
                | Inr s \<Rightarrow> sendall net s msg \<noteq> None)))"

text \<open>
  What the client goes through after its construction: refreshes of the peer list,
  messages from peers, direct messages and broadcasts.
\<close>

datatype client_event =
    Refresh "py_exception + result_json"
  | PeerMessage real string
  | SendDirect network string string
  | Broadcast network string

fun client_step ::
  "(string \<Rightarrow> py_exception + json) \<Rightarrow> client_event \<Rightarrow> chat_client \<Rightarrow> chat_client" where
  "client_step json_loads (Refresh exchange) c = update_peer_list exchange c"
| "client_step json_loads (PeerMessage now message) c =
     process_peer_message json_loads now message c"
| "client_step json_loads (SendDirect net pid message) c = send_direct_message net pid message c"
| "client_step json_loads (Broadcast net message) c = snd (broadcast_message net message c)"

fun client_run ::
  "(string \<Rightarrow> py_exception + json) \<Rightarrow> client_event list \<Rightarrow> chat_client \<Rightarrow> chat_client" where
  "client_run json_loads [] c = c"
| "client_run json_loads (ev # evs) c = client_run json_loads evs (client_step json_loads ev c)"

section \<open>Properties of the tracker\<close>

subsection \<open>Dictionaries\<close>

lemma map_of_dict_setitem: "map_of (dict_setitem k v d) = (map_of d)(k \<mapsto> v)"
  by (simp add: dict_setitem_def update_conv')

lemma length_dict_setitem_present:
  "map_of d k \<noteq> None \<Longrightarrow> length (dict_setitem k v d) = length d"
  unfolding dict_setitem_def
  by (induction d) auto

lemma length_dict_setitem_ge: "length d \<le> length (dict_setitem k v d)"
  unfolding dict_setitem_def
  by (induction d) auto

lemma dict_keys_setitem_present:
  "map_of d k \<noteq> None \<Longrightarrow> dict_keys (dict_setitem k v d) = dict_keys d"
  unfolding dict_setitem_def dict_keys_def
  by (induction d) auto

lemma distinct_dict_setitem:
  "distinct (dict_keys d) \<Longrightarrow> distinct (dict_keys (dict_setitem k v d))"
  by (simp add: dict_setitem_def dict_keys_def distinct_update)

lemma set_dict_setitem_subset:
  "set (dict_setitem k v d) \<subseteq> insert (k, v) (set d)"
  unfolding dict_setitem_def
  by (induction d) auto

lemma delete_all_filter:
  "distinct ks \<Longrightarrow> set ks \<subseteq> set (dict_keys d) \<Longrightarrow>
   delete_all ks d = Inr (filter (\<lambda>(k, v). k \<notin> set ks) d)"
proof (induction ks arbitrary: d)
  case Nil
  then show ?case by simp
next
  case (Cons k ks)
  have in_d: "dict_contains k d"
    using Cons.prems(2) by (auto simp: dict_contains_def dict_keys_def map_of_eq_None_iff)
  have sub: "set ks \<subseteq> set (dict_keys (AList.delete k d))"
    using Cons.prems by (auto simp: dict_keys_def delete_keys)
  have "delete_all ks (AList.delete k d) = Inr (filter (\<lambda>(k', v). k' \<notin> set ks) (AList.delete k d))"
    using Cons.IH [OF _ sub] Cons.prems(1) by simp
  moreover have "filter (\<lambda>(k', v). k' \<notin> set ks) (AList.delete k d) = filter (\<lambda>(k', v). k' \<notin> set (k # ks)) d"
    by (induction d) (auto simp: AList.delete_eq)
  ultimately show ?case using in_d by (simp add: dict_delitem_def)
qed

lemma cleanup_filter:
  assumes "distinct (dict_keys (peers t))"
  shows "cleanup_inactive_peers now t =
           Inr (t\<lparr>peers := filter (\<lambda>(pid, info). \<not> now - last_seen info > peer_timeout t) (peers t)\<rparr>)"
proof -
  let ?old = "\<lambda>(pid, info). now - last_seen (info :: peer_record) > peer_timeout t"
  let ?ks = "inactive_peers now t"
  have ks: "?ks = map fst (filter ?old (peers t))"
    by (simp add: inactive_peers_def)
  have d: "distinct ?ks"
    using assms unfolding ks dict_keys_def by (rule distinct_map_filter)
  have s: "set ?ks \<subseteq> set (dict_keys (peers t))"
    unfolding ks dict_keys_def by auto
  have mem: "(k \<notin> set ?ks) = (\<not> ?old (k, v))" if kv: "(k, v) \<in> set (peers t)" for k v
  proof -
    have uniq: "v' = v" if "(k, v') \<in> set (peers t)" for v'
      using assms that kv unfolding dict_keys_def by (rule_tac eq_key_imp_eq_value)
    have "k \<in> set ?ks \<Longrightarrow> ?old (k, v)"
    proof -
      assume "k \<in> set ?ks"
      then obtain v' where v': "(k, v') \<in> set (peers t)" "?old (k, v')"
        unfolding ks by auto
      then show "?old (k, v)" using uniq [OF v'(1)] by simp
    qed
    moreover have "?old (k, v) \<Longrightarrow> k \<in> set ?ks"
    proof -
      assume "?old (k, v)"
      then have "(k, v) \<in> set (filter ?old (peers t))" using kv by simp
      then have "fst (k, v) \<in> fst ` set (filter ?old (peers t))" by (rule imageI)
      then show "k \<in> set ?ks" unfolding ks by simp
    qed
    ultimately show ?thesis by blast
  qed
  have "filter (\<lambda>(k, v). k \<notin> set ?ks) (peers t) = filter (\<lambda>(pid, info). \<not> ?old (pid, info)) (peers t)"
  proof (rule filter_cong [OF refl])
    fix x assume x: "x \<in> set (peers t)"
    obtain k v where kv: "x = (k, v)" by (cases x)
    show "(case x of (k, v) \<Rightarrow> k \<notin> set ?ks) = (case x of (pid, info) \<Rightarrow> \<not> ?old (pid, info))"
      using mem [of k v] x unfolding kv by simp
  qed
  then show ?thesis
    unfolding cleanup_inactive_peers_def by (simp add: delete_all_filter [OF d s])
qed

lemma map_of_filter_distinct:
  "distinct (map fst d) \<Longrightarrow> map_of (filter (\<lambda>(k, v). P k v) d) k =
     (case map_of d k of None \<Rightarrow> None | Some v \<Rightarrow> if P k v then Some v else None)"
proof (induction d)
  case Nil
  then show ?case by simp
next
  case (Cons a d)
  obtain k' v' where a: "a = (k', v')" by (cases a)
  have notin: "map_of d k' = None"
    using Cons.prems a by (simp add: map_of_eq_None_iff)
  show ?case using Cons a notin by (auto split: option.splits)
qed

lemma list_peers_eq:
  "list_peers t = map (\<lambda>(pid, info). \<lparr>ip = ip info, port = port info, entry_peer_id = pid\<rparr>) (peers t)"
  by (simp add: list_peers_def handle_get_peers_def)

lemma listed_ids: "entry_peer_id ` set (list_peers t) = fst ` set (peers t)"
proof -
  have "map entry_peer_id (list_peers t) = map fst (peers t)"
    unfolding list_peers_eq by (induction "peers t") (auto simp: case_prod_unfold)
  then have "set (map entry_peer_id (list_peers t)) = set (map fst (peers t))" by simp
  then show ?thesis by simp
qed

text \<open>
  C1. One pass of the sweep removes exactly the records whose age
  \<open>now - last_seen\<close> is strictly greater than the timeout, whatever the registry and
  the timeout are: such a record is absent from the registry and from the list of
  \<open>GET_PEERS\<close> after the pass, a record whose age is at most the timeout is still
  there unchanged and listed, and no peer appears that was not registered. The pass
  raises no exception.
\<close>

theorem sweep_removes_exactly_expired:
  assumes "distinct (dict_keys (peers t))"
  shows "\<exists>t'. cleanup_inactive_peers now t = Inr t' \<and>
           peer_timeout t' = peer_timeout t \<and>
           (\<forall>pid. map_of (peers t) pid = None \<longrightarrow> pid \<notin> entry_peer_id ` set (list_peers t')) \<and>
           (\<forall>pid info. map_of (peers t) pid = Some info \<longrightarrow>
              (now - last_seen info > peer_timeout t \<longrightarrow>
                 map_of (peers t') pid = None \<and> pid \<notin> entry_peer_id ` set (list_peers t')) \<and>
              (now - last_seen info \<le> peer_timeout t \<longrightarrow>
                 map_of (peers t') pid = Some info \<and>
                 \<lparr>ip = ip info, port = port info, entry_peer_id = pid\<rparr> \<in> set (list_peers t')))"
proof -
  let ?keep = "\<lambda>pid (info :: peer_record). \<not> now - last_seen info > peer_timeout t"
  let ?t' = "t\<lparr>peers := filter (\<lambda>(pid, info). ?keep pid info) (peers t)\<rparr>"
  have run: "cleanup_inactive_peers now t = Inr ?t'"
    by (rule cleanup_filter [OF assms])
  have look: "map_of (peers ?t') pid =
      (case map_of (peers t) pid of None \<Rightarrow> None | Some v \<Rightarrow> if ?keep pid v then Some v else None)" for pid
    using map_of_filter_distinct [of "peers t" ?keep pid] assms by (simp add: dict_keys_def)
  have ids: "(pid \<in> entry_peer_id ` set (list_peers ?t')) = (map_of (peers ?t') pid \<noteq> None)" for pid
    unfolding listed_ids by (simp only: map_of_eq_None_iff simp_thms)
  have ent: "\<lparr>ip = ip info, port = port info, entry_peer_id = pid\<rparr> \<in> set (list_peers ?t')"
    if "map_of (peers ?t') pid = Some info" for pid info
  proof -
    have "(pid, info) \<in> set (peers ?t')" using that by (rule map_of_SomeD)
    then show ?thesis unfolding list_peers_eq by force
  qed
  have a: "\<forall>pid. map_of (peers t) pid = None \<longrightarrow> pid \<notin> entry_peer_id ` set (list_peers ?t')"
    unfolding ids look by simp
  have b: "\<forall>pid info. map_of (peers t) pid = Some info \<longrightarrow>
              (now - last_seen info > peer_timeout t \<longrightarrow>
                 map_of (peers ?t') pid = None \<and> pid \<notin> entry_peer_id ` set (list_peers ?t')) \<and>
              (now - last_seen info \<le> peer_timeout t \<longrightarrow>
                 map_of (peers ?t') pid = Some info \<and>
                 \<lparr>ip = ip info, port = port info, entry_peer_id = pid\<rparr> \<in> set (list_peers ?t'))"
  proof (intro allI impI conjI)
    fix pid info assume "map_of (peers t) pid = Some info" "now - last_seen info > peer_timeout t"
    then show "map_of (peers ?t') pid = None" unfolding look by simp
    then show "pid \<notin> entry_peer_id ` set (list_peers ?t')" unfolding ids by simp
  next
    fix pid info assume "map_of (peers t) pid = Some info" "now - last_seen info \<le> peer_timeout t"
    then show s: "map_of (peers ?t') pid = Some info" unfolding look by simp
    show "\<lparr>ip = ip info, port = port info, entry_peer_id = pid\<rparr> \<in> set (list_peers ?t')"
      by (rule ent [OF s])
  qed
  show ?thesis
    using run a b by (intro exI [of _ ?t']) simp
qed

theorem sweep_removes_exactly_expired_witness:
  "\<exists>t'. cleanup_inactive_peers 400
          \<lparr>peers = [(''alice'', \<lparr>ip = ''10.0.0.1'', port = 6001, last_seen = 50\<rparr>),
                    (''bob'', \<lparr>ip = ''10.0.0.2'', port = 6002, last_seen = 100\<rparr>)],
           peer_timeout = 300\<rparr> = Inr t' \<and>
        map_of (peers t') ''alice'' = None \<and>
        map_of (peers t') ''bob'' = Some \<lparr>ip = ''10.0.0.2'', port = 6002, last_seen = 100\<rparr>"
proof -
  let ?alice = "\<lparr>ip = ''10.0.0.1'', port = 6001, last_seen = 50\<rparr>"
  let ?bob = "\<lparr>ip = ''10.0.0.2'', port = 6002, last_seen = 100\<rparr>"
  let ?t = "\<lparr>peers = [(''alice'', ?alice), (''bob'', ?bob)], peer_timeout = 300\<rparr>"
  have d: "distinct (dict_keys (peers ?t))"
    by (simp add: dict_keys_def)
  from sweep_removes_exactly_expired [OF d, of 400] obtain t' where
    H: "cleanup_inactive_peers 400 ?t = Inr t' \<and>
           peer_timeout t' = peer_timeout ?t \<and>
           (\<forall>pid. map_of (peers ?t) pid = None \<longrightarrow> pid \<notin> entry_peer_id ` set (list_peers t')) \<and>
           (\<forall>pid info. map_of (peers ?t) pid = Some info \<longrightarrow>
              (400 - last_seen info > peer_timeout ?t \<longrightarrow>
                 map_of (peers t') pid = None \<and> pid \<notin> entry_peer_id ` set (list_peers t')) \<and>
              (400 - last_seen info \<le> peer_timeout ?t \<longrightarrow>
                 map_of (peers t') pid = Some info \<and>
                 \<lparr>ip = ip info, port = port info, entry_peer_id = pid\<rparr> \<in> set (list_peers t')))" ..
  have run: "cleanup_inactive_peers 400 ?t = Inr t'" using H by (rule conjunct1)
  have old: "\<forall>pid info. map_of (peers ?t) pid = Some info \<longrightarrow>
              (400 - last_seen info > peer_timeout ?t \<longrightarrow>
                 map_of (peers t') pid = None \<and> pid \<notin> entry_peer_id ` set (list_peers t')) \<and>
              (400 - last_seen info \<le> peer_timeout ?t \<longrightarrow>
                 map_of (peers t') pid = Some info \<and>
                 \<lparr>ip = ip info, port = port info, entry_peer_id = pid\<rparr> \<in> set (list_peers t'))"
    using H by (elim conjE)
  have a: "map_of (peers t') ''alice'' = None"
    using old [rule_format, of "''alice''" ?alice] by simp
  have b: "map_of (peers t') ''bob'' = Some ?bob"
    using old [rule_format, of "''bob''" ?bob] by simp
  show ?thesis using run a b by (intro exI [of _ t'] conjI)
qed

subsection \<open>The handlers\<close>

text \<open>
  C2. When the registry already holds a record for the peer id, a second \<open>REGISTER\<close>
  for it (with a port that \<open>int()\<close> accepts) answers with success, never with an
  error, and with a \<open>peer_count\<close> equal to the number of records before the call.
  The record of that peer now holds the new ip, the new port and the current time; it
  keeps its place, the keys of the registry are the same, and every other record is
  untouched.
\<close>

theorem reregister_overwrites:
  assumes present: "map_of (peers t) pid = Some old"
    and arity: "4 \<le> length parts"
    and p1: "parts ! 1 = pid" and p2: "parts ! 2 = new_ip"
    and p3: "py_int (parts ! 3) = Inr new_port"
  shows "\<exists>t'. handle_register now parts t =
              Inr (RegisterResponse (Literal ''Peer registered successfully'') (length (peers t)), t') \<and>
           map_of (peers t') pid = Some \<lparr>ip = new_ip, port = new_port, last_seen = now\<rparr> \<and>
           length (peers t') = length (peers t) \<and>
           dict_keys (peers t') = dict_keys (peers t) \<and>
           (\<forall>q. q \<noteq> pid \<longrightarrow> map_of (peers t') q = map_of (peers t) q)"
proof -
  let ?r = "\<lparr>ip = new_ip, port = new_port, last_seen = now\<rparr>"
  let ?t' = "t\<lparr>peers := dict_setitem pid ?r (peers t)\<rparr>"
  have ne: "map_of (peers t) pid \<noteq> None" using present by simp
  have len: "length (peers ?t') = length (peers t)"
    using length_dict_setitem_present [OF ne] by simp
  have keys: "dict_keys (peers ?t') = dict_keys (peers t)"
    using dict_keys_setitem_present [OF ne] by simp
  have run: "handle_register now parts t =
      Inr (RegisterResponse (Literal ''Peer registered successfully'') (length (peers t)), ?t')"
    using arity p1 p2 p3 len by (simp add: handle_register_def Let_def)
  have new: "map_of (peers ?t') pid = Some ?r"
    by (simp add: map_of_dict_setitem)
  have other: "\<forall>q. q \<noteq> pid \<longrightarrow> map_of (peers ?t') q = map_of (peers t) q"
    by (simp add: map_of_dict_setitem)
  show ?thesis
    using run new len keys other by (intro exI [of _ ?t'] conjI)
qed

theorem reregister_overwrites_witness:
  "\<exists>t'. handle_register 20 [''REGISTER'', ''alice'', ''10.0.0.9'', ''7001'']
           \<lparr>peers = [(''alice'', \<lparr>ip = ''10.0.0.1'', port = 6001, last_seen = 10\<rparr>),
                     (''bob'', \<lparr>ip = ''10.0.0.2'', port = 6002, last_seen = 12\<rparr>)],
            peer_timeout = 300\<rparr> =
          Inr (RegisterResponse (Literal ''Peer registered successfully'') 2, t') \<and>
        map_of (peers t') ''alice'' = Some \<lparr>ip = ''10.0.0.9'', port = 7001, last_seen = 20\<rparr>"
proof -
  let ?t = "\<lparr>peers = [(''alice'', \<lparr>ip = ''10.0.0.1'', port = 6001, last_seen = 10\<rparr>),
                     (''bob'', \<lparr>ip = ''10.0.0.2'', port = 6002, last_seen = 12\<rparr>)],
            peer_timeout = 300\<rparr>"
  let ?parts = "[''REGISTER'', ''alice'', ''10.0.0.9'', ''7001'']"
  have h1: "map_of (peers ?t) ''alice'' = Some \<lparr>ip = ''10.0.0.1'', port = 6001, last_seen = 10\<rparr>"
    by simp
  have h2: "4 \<le> length ?parts" by simp
  have h3: "?parts ! 1 = ''alice''" by simp
  have h4: "?parts ! 2 = ''10.0.0.9''" by simp
  have h5: "py_int (?parts ! 3) = Inr 7001"
    by (simp add: py_int_def digit_val_def)
  from reregister_overwrites [OF h1 h2 h3 h4 h5, of 20] obtain t' where
    H: "handle_register 20 ?parts ?t =
              Inr (RegisterResponse (Literal ''Peer registered successfully'') (length (peers ?t)), t') \<and>
           map_of (peers t') ''alice'' = Some \<lparr>ip = ''10.0.0.9'', port = 7001, last_seen = 20\<rparr> \<and>
           length (peers t') = length (peers ?t) \<and>
           dict_keys (peers t') = dict_keys (peers ?t) \<and>
           (\<forall>q. q \<noteq> ''alice'' \<longrightarrow> map_of (peers t') q = map_of (peers ?t) q)" ..
  have a: "handle_register 20 ?parts ?t =
              Inr (RegisterResponse (Literal ''Peer registered successfully'') 2, t')"
    using H by simp
  have b: "map_of (peers t') ''alice'' = Some \<lparr>ip = ''10.0.0.9'', port = 7001, last_seen = 20\<rparr>"
    using H by (elim conjE)
  show ?thesis using a b by (intro exI [of _ t'] conjI)
qed

text \<open>
  C3. For a peer id that is not in the registry, \<open>HEARTBEAT\<close> and \<open>UNREGISTER\<close>
  each answer with the error reply \<open>Peer not found\<close>, raise nothing, and return the
  tracker exactly as it was: no record is created, none is removed.
\<close>

theorem absent_peer_not_found:
  assumes arity: "2 \<le> length parts"
    and absent: "map_of (peers t) (parts ! 1) = None"
  shows "handle_heartbeat now parts t = (ErrorResponse (Literal ''Peer not found''), t) \<and>
         handle_unregister parts t = Inr (ErrorResponse (Literal ''Peer not found''), t)"
  using arity absent
  by (simp add: handle_heartbeat_def handle_unregister_def dict_contains_def Let_def)

theorem absent_peer_not_found_witness:
  "handle_heartbeat 30 [''HEARTBEAT'', ''carol'']
       \<lparr>peers = [(''alice'', \<lparr>ip = ''10.0.0.1'', port = 6001, last_seen = 10\<rparr>)],
        peer_timeout = 300\<rparr> =
     (ErrorResponse (Literal ''Peer not found''),
      \<lparr>peers = [(''alice'', \<lparr>ip = ''10.0.0.1'', port = 6001, last_seen = 10\<rparr>)],
        peer_timeout = 300\<rparr>) \<and>
   handle_unregister [''HEARTBEAT'', ''carol'']
       \<lparr>peers = [(''alice'', \<lparr>ip = ''10.0.0.1'', port = 6001, last_seen = 10\<rparr>)],
        peer_timeout = 300\<rparr> =
     Inr (ErrorResponse (Literal ''Peer not found''),
      \<lparr>peers = [(''alice'', \<lparr>ip = ''10.0.0.1'', port = 6001, last_seen = 10\<rparr>)],
        peer_timeout = 300\<rparr>)"
proof -
  let ?t = "\<lparr>peers = [(''alice'', \<lparr>ip = ''10.0.0.1'', port = 6001, last_seen = 10\<rparr>)],
        peer_timeout = 300\<rparr>"
  let ?parts = "[''HEARTBEAT'', ''carol'']"
  have h1: "2 \<le> length ?parts" by simp
  have h2: "map_of (peers ?t) (?parts ! 1) = None" by simp
  show ?thesis by (rule absent_peer_not_found [OF h1 h2, of 30])
qed

lemma count_key_distinct:
  "distinct (map fst d) \<Longrightarrow>
   length (filter (\<lambda>x. fst x = k) d) = (if k \<in> fst ` set d then 1 else 0)"
proof (induction d)
  case Nil
  then show ?case by simp
next
  case (Cons a d)
  then show ?case by (cases "fst a = k") (auto simp: image_iff)
qed

text \<open>
  C9. \<open>GET_PEERS\<close> has no error case: whatever the tokens after the command word
  are, the reply is \<open>{status: success, peers, peer_count}\<close>, where \<open>peers\<close> is a
  list built for the reply, \<open>peer_count\<close> is its length, and the tracker is returned
  unchanged. In a registry with one record per peer id, the list has exactly one entry
  for each registered peer and none for any other id, and each entry carries the ip and
  the port of that peer's record.
\<close>

theorem get_peers_snapshot:
  assumes "distinct (dict_keys (peers t))"
  shows "\<exists>l. handle_get_peers parts t = (PeersResponse l (length l), t) \<and>
           l = list_peers t \<and>
           length l = length (peers t) \<and>
           (\<forall>pid. length (filter (\<lambda>e. entry_peer_id e = pid) l) =
                    (if dict_contains pid (peers t) then 1 else 0)) \<and>
           (\<forall>pid info. map_of (peers t) pid = Some info \<longrightarrow>
              \<lparr>ip = ip info, port = port info, entry_peer_id = pid\<rparr> \<in> set l) \<and>
           (\<forall>e \<in> set l. \<exists>info. map_of (peers t) (entry_peer_id e) = Some info \<and>
              ip e = ip info \<and> port e = port info)"
proof -
  let ?f = "\<lambda>(pid, info :: peer_record). \<lparr>ip = ip info, port = port info, entry_peer_id = pid\<rparr>"
  let ?l = "map ?f (peers t)"
  have d: "distinct (map fst (peers t))" using assms by (simp add: dict_keys_def)
  have run: "handle_get_peers parts t = (PeersResponse ?l (length ?l), t)"
    by (simp add: handle_get_peers_def)
  have l: "?l = list_peers t" by (simp add: list_peers_eq)
  have len: "length ?l = length (peers t)" by simp
  have cnt: "length (filter (\<lambda>e. entry_peer_id e = pid) ?l) =
               (if dict_contains pid (peers t) then 1 else 0)" for pid
  proof -
    have "filter (\<lambda>e. entry_peer_id e = pid) ?l = map ?f (filter (\<lambda>x. fst x = pid) (peers t))"
      by (simp add: filter_map comp_def case_prod_unfold)
    then have "length (filter (\<lambda>e. entry_peer_id e = pid) ?l) =
                 length (filter (\<lambda>x. fst x = pid) (peers t))"
      by simp
    also have "\<dots> = (if pid \<in> fst ` set (peers t) then 1 else 0)"
      by (rule count_key_distinct [OF d])
    also have "\<dots> = (if dict_contains pid (peers t) then 1 else 0)"
      by (simp add: dict_contains_def map_of_eq_None_iff)
    finally show ?thesis .
  qed
  have fwd: "\<lparr>ip = ip info, port = port info, entry_peer_id = pid\<rparr> \<in> set ?l"
    if "map_of (peers t) pid = Some info" for pid info
  proof -
    have "(pid, info) \<in> set (peers t)" using that by (rule map_of_SomeD)
    then have "?f (pid, info) \<in> ?f ` set (peers t)" by (rule imageI)
    then show ?thesis by simp
  qed
  have bwd: "\<exists>info. map_of (peers t) (entry_peer_id e) = Some info \<and>
               ip e = ip info \<and> port e = port info" if "e \<in> set ?l" for e
  proof -
    from that obtain x where x: "x \<in> set (peers t)" "e = ?f x" by auto
    obtain pid info where pi: "x = (pid, info)" by (cases x)
    have "map_of (peers t) pid = Some info"
      using d x(1) unfolding pi by (rule map_of_is_SomeI)
    then show ?thesis using x(2) unfolding pi by simp
  qed
  show ?thesis
    using run l len cnt fwd bwd by (intro exI [of _ ?l] conjI allI impI ballI)
qed

theorem get_peers_snapshot_witness:
  "\<exists>l. handle_get_peers [''GET_PEERS'']
           \<lparr>peers = [(''alice'', \<lparr>ip = ''10.0.0.1'', port = 6001, last_seen = 10\<rparr>),
                     (''bob'', \<lparr>ip = ''10.0.0.2'', port = 6002, last_seen = 12\<rparr>)],
            peer_timeout = 300\<rparr> =
         (PeersResponse l (length l),
          \<lparr>peers = [(''alice'', \<lparr>ip = ''10.0.0.1'', port = 6001, last_seen = 10\<rparr>),
                     (''bob'', \<lparr>ip = ''10.0.0.2'', port = 6002, last_seen = 12\<rparr>)],
            peer_timeout = 300\<rparr>) \<and>
        length l = 2 \<and>
        \<lparr>ip = ''10.0.0.2'', port = 6002, entry_peer_id = ''bob''\<rparr> \<in> set l"
proof -
  let ?bob = "\<lparr>ip = ''10.0.0.2'', port = 6002, last_seen = 12\<rparr>"
  let ?t = "\<lparr>peers = [(''alice'', \<lparr>ip = ''10.0.0.1'', port = 6001, last_seen = 10\<rparr>),
                     (''bob'', ?bob)],
            peer_timeout = 300\<rparr>"
  let ?parts = "[''GET_PEERS'']"
  have d: "distinct (dict_keys (peers ?t))" by (simp add: dict_keys_def)
  from get_peers_snapshot [OF d, of ?parts] obtain l where
    H: "handle_get_peers ?parts ?t = (PeersResponse l (length l), ?t) \<and>
           l = list_peers ?t \<and>
           length l = length (peers ?t) \<and>
           (\<forall>pid. length (filter (\<lambda>e. entry_peer_id e = pid) l) =
                    (if dict_contains pid (peers ?t) then 1 else 0)) \<and>
           (\<forall>pid info. map_of (peers ?t) pid = Some info \<longrightarrow>
              \<lparr>ip = ip info, port = port info, entry_peer_id = pid\<rparr> \<in> set l) \<and>
           (\<forall>e \<in> set l. \<exists>info. map_of (peers ?t) (entry_peer_id e) = Some info \<and>
              ip e = ip info \<and> port e = port info)" ..
  have a: "handle_get_peers ?parts ?t = (PeersResponse l (length l), ?t)"
    using H by (rule conjunct1)
  have "length l = length (peers ?t)" using H by (elim conjE)
  then have b: "length l = 2" by simp
  have f: "\<forall>pid info. map_of (peers ?t) pid = Some info \<longrightarrow>
              \<lparr>ip = ip info, port = port info, entry_peer_id = pid\<rparr> \<in> set l"
    using H by (elim conjE)
  have c: "\<lparr>ip = ''10.0.0.2'', port = 6002, entry_peer_id = ''bob''\<rparr> \<in> set l"
    using f [rule_format, of "''bob''" ?bob] by simp
  show ?thesis using a b c by (intro exI [of _ l] conjI)
qed

lemma malformed_error_reply:
  assumes "malformed data"
  shows "\<exists>m. handle_client now (Inr data) t = (Some (ErrorResponse m), t)"
proof -
  let ?parts = "py_split (py_strip data)"
  let ?command = "py_upper (?parts ! 0)"
  have ne: "data \<noteq> []" using assms by (simp add: malformed_def)
  show ?thesis
  proof (cases "?parts = []")
    case True
    then show ?thesis using ne by (simp add: handle_client_def)
  next
    case False
    from assms False ne have cases:
      "(?command = ''REGISTER'' \<and> (length ?parts < 4 \<or> isl (py_int (?parts ! 3)))) \<or>
       (?command = ''UNREGISTER'' \<and> length ?parts < 2) \<or>
       (?command = ''HEARTBEAT'' \<and> length ?parts < 2) \<or>
       ?command \<notin> {''REGISTER'', ''GET_PEERS'', ''UNREGISTER'', ''HEARTBEAT''}"
      by (simp add: malformed_def Let_def)
    then consider
        (reg_short) "?command = ''REGISTER''" "length ?parts < 4"
      | (reg_port) "?command = ''REGISTER''" "\<not> length ?parts < 4" "isl (py_int (?parts ! 3))"
      | (unreg) "?command = ''UNREGISTER''" "length ?parts < 2"
      | (beat) "?command = ''HEARTBEAT''" "length ?parts < 2"
      | (unknown) "?command \<notin> {''REGISTER'', ''GET_PEERS'', ''UNREGISTER'', ''HEARTBEAT''}"
      by argo
    then show ?thesis
    proof cases
      case reg_short
      then show ?thesis using ne False
        by (simp add: handle_client_def handle_register_def Let_def)
    next
      case reg_port
      from reg_port(3) obtain e where "py_int (?parts ! 3) = Inl e"
        by (cases "py_int (?parts ! 3)") auto
      then show ?thesis using ne False reg_port(1,2)
        by (simp add: handle_client_def handle_register_def Let_def)
    next
      case unreg
      then show ?thesis using ne False
        by (simp add: handle_client_def handle_unregister_def Let_def)
    next
      case beat
      then show ?thesis using ne False
        by (simp add: handle_client_def handle_heartbeat_def Let_def)
    next
      case unknown
      then show ?thesis using ne False
        by (simp add: handle_client_def Let_def)
    qed
  qed
qed

lemma handle_register_take:
  "4 \<le> length parts \<Longrightarrow> handle_register now (take 4 parts) t = handle_register now parts t"
  by (simp add: handle_register_def)

lemma handle_unregister_take:
  "2 \<le> length parts \<Longrightarrow> handle_unregister (take 2 parts) t = handle_unregister parts t"
  by (simp add: handle_unregister_def)

lemma handle_heartbeat_take:
  "2 \<le> length parts \<Longrightarrow> handle_heartbeat now (take 2 parts) t = handle_heartbeat now parts t"
  by (simp add: handle_heartbeat_def)

lemma handle_get_peers_take: "handle_get_peers (take n parts) t = handle_get_peers parts t"
  by (simp add: handle_get_peers_def)

lemma surplus_tokens_ignored:
  assumes ne: "data \<noteq> []" and ne': "data' \<noteq> []"
    and parts: "py_split (py_strip data) \<noteq> []"
    and enough: "tokens_needed (py_upper (py_split (py_strip data) ! 0)) \<le> length (py_split (py_strip data))"
    and cut: "py_split (py_strip data') =
                take (tokens_needed (py_upper (py_split (py_strip data) ! 0))) (py_split (py_strip data))"
  shows "handle_client now (Inr data') t = handle_client now (Inr data) t"
proof -
  let ?parts = "py_split (py_strip data)"
  let ?command = "py_upper (?parts ! 0)"
  let ?n = "tokens_needed ?command"
  have pos: "0 < ?n" by (simp add: tokens_needed_def)
  have first: "take ?n ?parts ! 0 = ?parts ! 0" using pos by simp
  have some: "take ?n ?parts \<noteq> []" using pos parts by simp
  consider (reg) "?command = ''REGISTER''"
    | (get) "?command = ''GET_PEERS''"
    | (unreg) "?command = ''UNREGISTER''"
    | (beat) "?command = ''HEARTBEAT''"
    | (other) "?command \<noteq> ''REGISTER''" "?command \<noteq> ''GET_PEERS''"
        "?command \<noteq> ''UNREGISTER''" "?command \<noteq> ''HEARTBEAT''"
    by argo
  then show ?thesis
  proof cases
    case reg
    then have n: "?n = 4" by (simp add: tokens_needed_def)
    have len: "4 \<le> length ?parts" using enough n by simp
    have c': "py_split (py_strip data') = take 4 ?parts" using cut n by simp
    have f: "take 4 ?parts ! 0 = ?parts ! 0" by simp
    have s: "take 4 ?parts \<noteq> []" using parts by simp
    show ?thesis
      unfolding handle_client_def
      using ne ne' parts reg s
      by (simp add: c' f handle_register_take [OF len] del: take_eq_Nil)
  next
    case get
    then have n: "?n = 1" by (simp add: tokens_needed_def)
    have c': "py_split (py_strip data') = take 1 ?parts" using cut n by simp
    have f: "take 1 ?parts ! 0 = ?parts ! 0" by simp
    have s: "take 1 ?parts \<noteq> []" using parts by simp
    show ?thesis
      unfolding handle_client_def
      using ne ne' parts get s
      by (simp add: c' f handle_get_peers_take del: take_eq_Nil)
  next
    case unreg
    then have n: "?n = 2" by (simp add: tokens_needed_def)
    have len: "2 \<le> length ?parts" using enough n by simp
    have c': "py_split (py_strip data') = take 2 ?parts" using cut n by simp
    have f: "take 2 ?parts ! 0 = ?parts ! 0" by simp
    have s: "take 2 ?parts \<noteq> []" using parts by simp
    show ?thesis
      unfolding handle_client_def
      using ne ne' parts unreg s
      by (simp add: c' f handle_unregister_take [OF len] del: take_eq_Nil)
  next
    case beat
    then have n: "?n = 2" by (simp add: tokens_needed_def)
    have len: "2 \<le> length ?parts" using enough n by simp
    have c': "py_split (py_strip data') = take 2 ?parts" using cut n by simp
    have f: "take 2 ?parts ! 0 = ?parts ! 0" by simp
    have s: "take 2 ?parts \<noteq> []" using parts by simp
    show ?thesis
      unfolding handle_client_def
      using ne ne' parts beat s
      by (simp add: c' f handle_heartbeat_take [OF len] del: take_eq_Nil)
  next
    case other
    then have n: "?n = 1" by (simp add: tokens_needed_def)
    have c': "py_split (py_strip data') = take 1 ?parts" using cut n by simp
    have f: "take 1 ?parts ! 0 = ?parts ! 0" by simp
    have s: "take 1 ?parts \<noteq> []" using parts by simp
    show ?thesis
      unfolding handle_client_def
      using ne ne' parts other s
      by (simp add: c' f del: take_eq_Nil)
  qed
qed

text \<open>
  C5, as amended. For every received text that is not empty and is malformed in the
  sense of \<open>malformed\<close> (only white space; fewer than four tokens for \<open>REGISTER\<close>; a
  fourth token of \<open>REGISTER\<close> that \<open>int()\<close> rejects; fewer than two tokens for
  \<open>UNREGISTER\<close> or \<open>HEARTBEAT\<close>; an unknown command word) the connection handler
  replies with \<open>{status: error, message: ...}\<close>, raises nothing, and leaves the
  tracker unchanged. Tokens beyond those a command needs are ignored: a request that
  has at least the tokens its command needs gets the same reply, and leaves the same
  tracker, as the request cut down to those tokens.
\<close>

theorem malformed_request_rejected:
  "(malformed data \<longrightarrow> (\<exists>m. handle_client now (Inr data) t = (Some (ErrorResponse m), t))) \<and>
   (\<forall>data'. data \<noteq> [] \<and> data' \<noteq> [] \<and> py_split (py_strip data) \<noteq> [] \<and>
      tokens_needed (py_upper (py_split (py_strip data) ! 0)) \<le> length (py_split (py_strip data)) \<and>
      py_split (py_strip data') =
        take (tokens_needed (py_upper (py_split (py_strip data) ! 0))) (py_split (py_strip data)) \<longrightarrow>
      handle_client now (Inr data) t = handle_client now (Inr data') t)"
proof (intro conjI impI allI)
  assume "malformed data"
  then show "\<exists>m. handle_client now (Inr data) t = (Some (ErrorResponse m), t)"
    by (rule malformed_error_reply)
next
  fix data'
  assume h: "data \<noteq> [] \<and> data' \<noteq> [] \<and> py_split (py_strip data) \<noteq> [] \<and>
      tokens_needed (py_upper (py_split (py_strip data) ! 0)) \<le> length (py_split (py_strip data)) \<and>
      py_split (py_strip data') =
        take (tokens_needed (py_upper (py_split (py_strip data) ! 0))) (py_split (py_strip data))"
  have a: "data \<noteq> []" using h by (elim conjE)
  have b: "data' \<noteq> []" using h by (elim conjE)
  have c: "py_split (py_strip data) \<noteq> []" using h by (elim conjE)
  have d: "tokens_needed (py_upper (py_split (py_strip data) ! 0)) \<le> length (py_split (py_strip data))"
    using h by (elim conjE)
  have e: "py_split (py_strip data') =
        take (tokens_needed (py_upper (py_split (py_strip data) ! 0))) (py_split (py_strip data))"
    using h by (elim conjE)
  show "handle_client now (Inr data) t = handle_client now (Inr data') t"
    by (rule surplus_tokens_ignored [OF a b c d e, symmetric])
qed

lemma split_bad_port:
  "py_split (py_strip ''REGISTER alice 10.0.0.1 sixty'') = [''REGISTER'', ''alice'', ''10.0.0.1'', ''sixty'']"
  by (simp add: py_split_def py_strip_def py_isspace_def)

lemma split_surplus:
  "py_split (py_strip ''HEARTBEAT alice extra'') = [''HEARTBEAT'', ''alice'', ''extra'']"
  by (simp add: py_split_def py_strip_def py_isspace_def)

lemma split_exact:
  "py_split (py_strip ''HEARTBEAT alice'') = [''HEARTBEAT'', ''alice'']"
  by (simp add: py_split_def py_strip_def py_isspace_def)

theorem malformed_request_rejected_witness:
  "malformed ''REGISTER alice 10.0.0.1 sixty'' \<and>
   (\<exists>m. handle_client 5 (Inr ''REGISTER alice 10.0.0.1 sixty'') PeerTracker_init =
          (Some (ErrorResponse m), PeerTracker_init)) \<and>
   handle_client 70 (Inr ''HEARTBEAT alice extra'')
       \<lparr>peers = [(''alice'', \<lparr>ip = ''10.0.0.1'', port = 6001, last_seen = 10\<rparr>)],
        peer_timeout = 300\<rparr> =
     handle_client 70 (Inr ''HEARTBEAT alice'')
       \<lparr>peers = [(''alice'', \<lparr>ip = ''10.0.0.1'', port = 6001, last_seen = 10\<rparr>)],
        peer_timeout = 300\<rparr>"
proof -
  let ?t = "\<lparr>peers = [(''alice'', \<lparr>ip = ''10.0.0.1'', port = 6001, last_seen = 10\<rparr>)],
        peer_timeout = 300\<rparr>"
  have up: "py_upper ''REGISTER'' = ''REGISTER''"
    by (simp add: py_upper_def py_upper_char_def)
  have bad: "isl (py_int ''sixty'')"
    by (simp add: py_int_def digit_val_def)
  have m: "malformed ''REGISTER alice 10.0.0.1 sixty''"
    unfolding malformed_def split_bad_port using up bad by (simp add: Let_def)
  have r: "\<exists>m. handle_client 5 (Inr ''REGISTER alice 10.0.0.1 sixty'') PeerTracker_init =
          (Some (ErrorResponse m), PeerTracker_init)"
    using malformed_request_rejected
            [of "''REGISTER alice 10.0.0.1 sixty''" 5 PeerTracker_init, THEN conjunct1] m
    by (rule mp)
  have beat: "py_upper ''HEARTBEAT'' = ''HEARTBEAT''"
    by (simp add: py_upper_def py_upper_char_def)
  have n: "tokens_needed (py_upper (py_split (py_strip ''HEARTBEAT alice extra'') ! 0)) = 2"
    unfolding split_surplus using beat by (simp add: tokens_needed_def)
  have hyp: "''HEARTBEAT alice extra'' \<noteq> [] \<and> ''HEARTBEAT alice'' \<noteq> [] \<and>
      py_split (py_strip ''HEARTBEAT alice extra'') \<noteq> [] \<and>
      tokens_needed (py_upper (py_split (py_strip ''HEARTBEAT alice extra'') ! 0)) \<le>
        length (py_split (py_strip ''HEARTBEAT alice extra'')) \<and>
      py_split (py_strip ''HEARTBEAT alice'') =
        take (tokens_needed (py_upper (py_split (py_strip ''HEARTBEAT alice extra'') ! 0)))
          (py_split (py_strip ''HEARTBEAT alice extra''))"
    unfolding n unfolding split_surplus split_exact by simp
  have s: "handle_client 70 (Inr ''HEARTBEAT alice extra'') ?t =
           handle_client 70 (Inr ''HEARTBEAT alice'') ?t"
    using malformed_request_rejected
            [of "''HEARTBEAT alice extra''" 70 ?t, THEN conjunct2, rule_format, OF hyp] .
  show ?thesis using m r s by (intro conjI)
qed

lemma empty_read_no_reply: "handle_client now (Inr []) t = (None, t)"
  by (simp add: handle_client_def)

text \<open>
  C5, as stated, fails for a request with too many tokens: the handlers test only for
  too few. A \<open>REGISTER\<close> with five tokens is answered with success and changes the
  registry.
\<close>

theorem extra_token_request_accepted:
  "length (py_split (py_strip ''REGISTER alice 10.0.0.1 6001 extra'')) = 5 \<and>
   handle_client 5 (Inr ''REGISTER alice 10.0.0.1 6001 extra'') PeerTracker_init =
     (Some (RegisterResponse (Literal ''Peer registered successfully'') 1),
      \<lparr>peers = [(''alice'', \<lparr>ip = ''10.0.0.1'', port = 6001, last_seen = 5\<rparr>)],
       peer_timeout = 300\<rparr>)"
proof -
  have sp: "py_split (py_strip ''REGISTER alice 10.0.0.1 6001 extra'') =
              [''REGISTER'', ''alice'', ''10.0.0.1'', ''6001'', ''extra'']"
    by (simp add: py_split_def py_strip_def py_isspace_def)
  have up: "py_upper ''REGISTER'' = ''REGISTER''"
    by (simp add: py_upper_def py_upper_char_def)
  have pt: "py_int ''6001'' = Inr 6001"
    by (simp add: py_int_def digit_val_def)
  show ?thesis
    by (simp add: handle_client_def handle_register_def sp up pt PeerTracker_init_def
          dict_setitem_def Let_def)
qed

subsection \<open>The invariant of the registry\<close>

lemma registry_ok_mono: "registry_ok now t \<Longrightarrow> now \<le> now' \<Longrightarrow> registry_ok now' t"
  unfolding registry_ok_def by force

lemma last_seen_kept_refl: "last_seen_kept t t"
  unfolding last_seen_kept_def by simp

lemma setitem_ok:
  assumes ok: "registry_ok now t" and le: "now \<le> now'" and r: "last_seen r = now'"
  shows "registry_ok now' (t\<lparr>peers := dict_setitem pid r (peers t)\<rparr>)"
proof -
  have d: "distinct (dict_keys (dict_setitem pid r (peers t)))"
    using ok unfolding registry_ok_def by (simp add: distinct_dict_setitem)
  have "last_seen (snd x) \<le> now'" if "x \<in> set (dict_setitem pid r (peers t))" for x
  proof -
    from that set_dict_setitem_subset [of pid r "peers t"]
    have "x = (pid, r) \<or> x \<in> set (peers t)" by auto
    then show ?thesis
    proof
      assume "x = (pid, r)" then show ?thesis using r by simp
    next
      assume "x \<in> set (peers t)"
      then have "last_seen (snd x) \<le> now" using ok unfolding registry_ok_def by simp
      then show ?thesis using le by simp
    qed
  qed
  then show ?thesis using d unfolding registry_ok_def by simp
qed

lemma setitem_kept:
  assumes ok: "registry_ok now t" and le: "now \<le> now'" and r: "last_seen r = now'"
  shows "last_seen_kept t (t\<lparr>peers := dict_setitem pid r (peers t)\<rparr>)"
  unfolding last_seen_kept_def
proof (intro allI impI)
  fix q old new
  assume o: "map_of (peers t) q = Some old"
    and n: "map_of (peers (t\<lparr>peers := dict_setitem pid r (peers t)\<rparr>)) q = Some new"
  show "last_seen old \<le> last_seen new"
  proof (cases "q = pid")
    case True
    then have "new = r" using n by (simp add: map_of_dict_setitem)
    moreover have "(q, old) \<in> set (peers t)" using o by (rule map_of_SomeD)
    then have "last_seen old \<le> now" using ok unfolding registry_ok_def by force
    ultimately show ?thesis using le r by simp
  next
    case False
    then have "new = old" using n o by (simp add: map_of_dict_setitem)
    then show ?thesis by simp
  qed
qed

lemma filter_ok:
  assumes ok: "registry_ok now t"
  shows "registry_ok now (t\<lparr>peers := filter P (peers t)\<rparr>)"
proof -
  have "distinct (map fst (filter P (peers t)))"
    using ok unfolding registry_ok_def dict_keys_def by (simp add: distinct_map_filter)
  then show ?thesis using ok unfolding registry_ok_def dict_keys_def by simp
qed

lemma filter_kept:
  assumes ok: "registry_ok now t"
  shows "last_seen_kept t (t\<lparr>peers := filter P (peers t)\<rparr>)"
  unfolding last_seen_kept_def
proof (intro allI impI)
  fix q old new
  assume o: "map_of (peers t) q = Some old"
    and n: "map_of (peers (t\<lparr>peers := filter P (peers t)\<rparr>)) q = Some new"
  have "map_of (filter P (peers t)) q = Some new" using n by simp
  then have "(q, new) \<in> set (filter P (peers t))" by (rule map_of_SomeD)
  then have "(q, new) \<in> set (peers t)" by simp
  moreover have "distinct (map fst (peers t))" using ok unfolding registry_ok_def dict_keys_def by simp
  ultimately have "map_of (peers t) q = Some new" by (rule_tac map_of_is_SomeI)
  then show "last_seen old \<le> last_seen new" using o by simp
qed

lemma handle_register_shape:
  assumes "handle_register now parts t = Inr (r, t')"
  shows "t' = t \<or> (\<exists>pid rec. last_seen rec = now \<and> t' = t\<lparr>peers := dict_setitem pid rec (peers t)\<rparr>)"
proof (cases "length parts < 4")
  case True
  then show ?thesis using assms by (simp add: handle_register_def)
next
  case False
  show ?thesis
  proof (cases "py_int (parts ! 3)")
    case (Inl e)
    then show ?thesis using assms False by (simp add: handle_register_def)
  next
    case (Inr p)
    let ?rec = "\<lparr>ip = parts ! 2, port = p, last_seen = now\<rparr>"
    have "t' = t\<lparr>peers := dict_setitem (parts ! 1) ?rec (peers t)\<rparr>"
      using assms False Inr by (simp add: handle_register_def Let_def)
    moreover have "last_seen ?rec = now" by simp
    ultimately show ?thesis by (intro disjI2 exI [of _ "parts ! 1"] exI [of _ ?rec] conjI)
  qed
qed

lemma handle_heartbeat_shape:
  assumes "handle_heartbeat now parts t = (r, t')"
  shows "t' = t \<or> (\<exists>pid rec. last_seen rec = now \<and> t' = t\<lparr>peers := dict_setitem pid rec (peers t)\<rparr>)"
proof (cases "length parts < 2")
  case True
  then show ?thesis using assms by (simp add: handle_heartbeat_def)
next
  case False
  show ?thesis
  proof (cases "map_of (peers t) (parts ! 1)")
    case None
    then show ?thesis using assms False by (simp add: handle_heartbeat_def)
  next
    case (Some info)
    let ?rec = "info\<lparr>last_seen := now\<rparr>"
    have "t' = t\<lparr>peers := dict_setitem (parts ! 1) ?rec (peers t)\<rparr>"
      using assms False Some by (simp add: handle_heartbeat_def Let_def)
    moreover have "last_seen ?rec = now" by simp
    ultimately show ?thesis by (intro disjI2 exI [of _ "parts ! 1"] exI [of _ ?rec] conjI)
  qed
qed

lemma handle_unregister_shape:
  assumes "handle_unregister parts t = Inr (r, t')"
  shows "t' = t \<or> (\<exists>P. t' = t\<lparr>peers := filter P (peers t)\<rparr>)"
proof (cases "length parts < 2")
  case True
  then show ?thesis using assms by (simp add: handle_unregister_def)
next
  case False
  show ?thesis
  proof (cases "dict_contains (parts ! 1) (peers t)")
    case False
    then show ?thesis using assms \<open>\<not> length parts < 2\<close>
      by (simp add: handle_unregister_def Let_def)
  next
    case True
    then have "t' = t\<lparr>peers := filter (\<lambda>(k', _). parts ! 1 \<noteq> k') (peers t)\<rparr>"
      using assms False
      by (simp add: handle_unregister_def Let_def dict_delitem_def AList.delete_eq)
    then show ?thesis by (intro disjI2 exI [of _ "\<lambda>(k', _). parts ! 1 \<noteq> k'"])
  qed
qed

lemma handle_get_peers_shape: "snd (handle_get_peers parts t) = t"
  by (simp add: handle_get_peers_def)

lemma handle_client_shape:
  "snd (handle_client now received t) = t \<or>
   (\<exists>pid rec. last_seen rec = now \<and>
      snd (handle_client now received t) = t\<lparr>peers := dict_setitem pid rec (peers t)\<rparr>) \<or>
   (\<exists>P. snd (handle_client now received t) = t\<lparr>peers := filter P (peers t)\<rparr>)"
proof (cases received)
  case (Inl e)
  then show ?thesis by (simp add: handle_client_def)
next
  case (Inr data)
  let ?parts = "py_split (py_strip data)"
  let ?command = "py_upper (?parts ! 0)"
  consider (none) "data = [] \<or> ?parts = []"
    | (reg) "data \<noteq> []" "?parts \<noteq> []" "?command = ''REGISTER''"
    | (get) "data \<noteq> []" "?parts \<noteq> []" "?command = ''GET_PEERS''"
    | (unreg) "data \<noteq> []" "?parts \<noteq> []" "?command = ''UNREGISTER''"
    | (beat) "data \<noteq> []" "?parts \<noteq> []" "?command = ''HEARTBEAT''"
    | (other) "data \<noteq> []" "?parts \<noteq> []" "?command \<noteq> ''REGISTER''" "?command \<noteq> ''GET_PEERS''"
        "?command \<noteq> ''UNREGISTER''" "?command \<noteq> ''HEARTBEAT''"
    by argo
  then show ?thesis
  proof cases
    case none
    then show ?thesis using Inr by (auto simp: handle_client_def)
  next
    case reg
    show ?thesis
    proof (cases "handle_register now ?parts t")
      case (Inl e)
      then show ?thesis using Inr reg by (simp add: handle_client_def)
    next
      case (Inr p)
      obtain r t' where p: "p = (r, t')" by (cases p)
      have s: "snd (handle_client now received t) = t'"
        using \<open>received = Inr data\<close> reg Inr p by (simp add: handle_client_def)
      from handle_register_shape [OF Inr [unfolded p]] show ?thesis unfolding s by blast
    qed
  next
    case get
    then show ?thesis using Inr
      by (simp add: handle_client_def handle_get_peers_def)
  next
    case unreg
    show ?thesis
    proof (cases "handle_unregister ?parts t")
      case (Inl e)
      then show ?thesis using Inr unreg by (simp add: handle_client_def)
    next
      case (Inr p)
      obtain r t' where p: "p = (r, t')" by (cases p)
      have s: "snd (handle_client now received t) = t'"
        using \<open>received = Inr data\<close> unreg Inr p by (simp add: handle_client_def)
      from handle_unregister_shape [OF Inr [unfolded p]] show ?thesis unfolding s by blast
    qed
  next
    case beat
    obtain r t' where p: "handle_heartbeat now ?parts t = (r, t')"
      by (cases "handle_heartbeat now ?parts t")
    have s: "snd (handle_client now received t) = t'"
      using Inr beat p by (simp add: handle_client_def)
    from handle_heartbeat_shape [OF p] show ?thesis unfolding s by blast
  next
    case other
    then show ?thesis using Inr by (simp add: handle_client_def)
  qed
qed

lemma tracker_step_ok:
  assumes ok: "registry_ok now t" and le: "now \<le> event_time ev"
  shows "\<exists>t'. tracker_step ev t = Inr t' \<and> registry_ok (event_time ev) t' \<and> last_seen_kept t t'"
proof (cases ev)
  case (Connection now' received)
  let ?t' = "snd (handle_client now' received t)"
  have le': "now \<le> now'" using le Connection by simp
  have "registry_ok now' ?t' \<and> last_seen_kept t ?t'"
    using handle_client_shape [of now' received t]
  proof (elim disjE exE conjE)
    assume "?t' = t"
    then show ?thesis using registry_ok_mono [OF ok le'] last_seen_kept_refl by simp
  next
    fix pid rec assume r: "last_seen rec = now'" and e: "?t' = t\<lparr>peers := dict_setitem pid rec (peers t)\<rparr>"
    show ?thesis unfolding e using setitem_ok [OF ok le' r] setitem_kept [OF ok le' r] by simp
  next
    fix P assume e: "?t' = t\<lparr>peers := filter P (peers t)\<rparr>"
    show ?thesis unfolding e using registry_ok_mono [OF filter_ok [OF ok] le'] filter_kept [OF ok] by simp
  qed
  then show ?thesis using Connection by simp
next
  case (Sweep now')
  have le': "now \<le> now'" using le Sweep by simp
  have d: "distinct (dict_keys (peers t))" using ok unfolding registry_ok_def by simp
  show ?thesis
    using Sweep cleanup_filter [OF d, of now'] registry_ok_mono [OF filter_ok [OF ok] le'] filter_kept [OF ok]
    by simp
qed

lemma tracker_run_ok:
  "registry_ok now t \<Longrightarrow> sorted (now # map event_time evs) \<Longrightarrow>
   \<exists>t'. tracker_run evs t = Inr t' \<and> registry_ok (last (now # map event_time evs)) t'"
proof (induction evs arbitrary: now t)
  case Nil
  then show ?case by simp
next
  case (Cons ev evs)
  have le: "now \<le> event_time ev" using Cons.prems(2) by simp
  from tracker_step_ok [OF Cons.prems(1) le] obtain t1 where
    st: "tracker_step ev t = Inr t1" and ok1: "registry_ok (event_time ev) t1" by auto
  have so: "sorted (event_time ev # map event_time evs)" using Cons.prems(2) by simp
  from Cons.IH [OF ok1 so] obtain t' where
    "tracker_run evs t1 = Inr t'" "registry_ok (last (event_time ev # map event_time evs)) t'"
    by auto
  then show ?case using st by simp
qed

text \<open>
  C6. Start from a tracker whose registry is empty, as the constructor leaves it, and
  let any sequence of connections (\<open>REGISTER\<close>, \<open>HEARTBEAT\<close>, \<open>UNREGISTER\<close>,
  \<open>GET_PEERS\<close>, or anything else a client may send) and sweeps happen, with readings
  of the clock that never decrease. Then no step raises, the registry holds at most one
  record for each peer id before and after every step, and a record that exists both
  before and after a step has a \<open>last_seen\<close> that did not decrease.
\<close>

theorem registry_invariant:
  assumes empty: "peers t0 = []"
    and clock: "sorted (map event_time (evs @ [ev]))"
  shows "\<exists>t t'. tracker_run evs t0 = Inr t \<and> tracker_step ev t = Inr t' \<and>
           distinct (dict_keys (peers t)) \<and> distinct (dict_keys (peers t')) \<and>
           (\<forall>pid r r'. map_of (peers t) pid = Some r \<longrightarrow> map_of (peers t') pid = Some r' \<longrightarrow>
              last_seen r \<le> last_seen r')"
proof -
  define start where "start = (if evs = [] then event_time ev else event_time (hd evs))"
  have ok0: "registry_ok start t0" using empty by (simp add: registry_ok_def dict_keys_def)
  have so: "sorted (start # map event_time evs)"
    using clock unfolding start_def by (cases evs) (auto simp: sorted_append)
  from tracker_run_ok [OF ok0 so] obtain t where
    run: "tracker_run evs t0 = Inr t" and ok: "registry_ok (last (start # map event_time evs)) t"
    by auto
  have le: "last (start # map event_time evs) \<le> event_time ev"
  proof (cases "evs = []")
    case True
    then show ?thesis by (simp add: start_def)
  next
    case False
    then have eq: "last (start # map event_time evs) = event_time (last evs)"
      by (simp add: last_map)
    have mem: "last evs \<in> set evs" using False by simp
    have "\<forall>x \<in> set evs. event_time x \<le> event_time ev"
      using clock by (simp add: sorted_append)
    then have "event_time (last evs) \<le> event_time ev" using mem by auto
    then show ?thesis unfolding eq .
  qed
  from tracker_step_ok [OF ok le] obtain t' where
    st: "tracker_step ev t = Inr t'" and ok': "registry_ok (event_time ev) t'"
    and kept: "last_seen_kept t t'" by auto
  have d: "distinct (dict_keys (peers t))" using ok unfolding registry_ok_def by simp
  have d': "distinct (dict_keys (peers t'))" using ok' unfolding registry_ok_def by simp
  show ?thesis
    using run st d d' kept [unfolded last_seen_kept_def] by (intro exI [of _ t] exI [of _ t'] conjI)
qed

theorem registry_invariant_witness:
  "\<exists>t t'. tracker_run [Connection 10 (Inr ''REGISTER alice 10.0.0.1 6001''), Sweep 60]
             PeerTracker_init = Inr t \<and>
          tracker_step (Connection 70 (Inr ''HEARTBEAT alice'')) t = Inr t' \<and>
          distinct (dict_keys (peers t)) \<and> distinct (dict_keys (peers t')) \<and>
          (\<forall>pid r r'. map_of (peers t) pid = Some r \<longrightarrow> map_of (peers t') pid = Some r' \<longrightarrow>
             last_seen r \<le> last_seen r')"
proof -
  have h1: "peers PeerTracker_init = []"
    by (simp add: PeerTracker_init_def)
  have h2: "sorted (map event_time
              ([Connection 10 (Inr ''REGISTER alice 10.0.0.1 6001''), Sweep 60] @
               [Connection 70 (Inr ''HEARTBEAT alice'')]))"
    by simp
  show ?thesis by (rule registry_invariant [OF h1 h2])
qed

section \<open>Properties of the chat client\<close>

subsection \<open>Refreshing the peer cache\<close>

lemma keys_dict_setitem: "fst ` set (dict_setitem k v d) = insert k (fst ` set d)"
  by (simp add: dict_setitem_def dom_update)

lemma update_peers_loop_keeps:
  "length info \<le> length (snd (update_peers_loop own ps info)) \<and>
   (\<forall>pid a. map_of info pid = Some a \<longrightarrow>
      (\<exists>a'. map_of (snd (update_peers_loop own ps info)) pid = Some a' \<and>
         (a' = a \<or> (\<exists>p \<in> set ps. json_peer_id p = Some pid \<and> json_ip p = Some (ip a') \<and>
                       json_port p = Some (port a')))))"
proof (induction ps arbitrary: info)
  case Nil
  then show ?case by simp
next
  case (Cons p ps)
  show ?case
  proof (cases "\<exists>pid i q. json_peer_id p = Some pid \<and> pid \<noteq> own \<and> json_ip p = Some i \<and> json_port p = Some q")
    case True
    then obtain pid i q where p: "json_peer_id p = Some pid" "pid \<noteq> own" "json_ip p = Some i" "json_port p = Some q"
      by auto
    let ?info1 = "dict_setitem pid \<lparr>ip = i, port = q\<rparr> info"
    have step: "update_peers_loop own (p # ps) info = update_peers_loop own ps ?info1"
      using p by simp
    have len: "length info \<le> length (snd (update_peers_loop own ps ?info1))"
      using Cons.IH [of ?info1] length_dict_setitem_ge [of info pid "\<lparr>ip = i, port = q\<rparr>"] by linarith
    have keep: "\<exists>a'. map_of (snd (update_peers_loop own ps ?info1)) k = Some a' \<and>
         (a' = a \<or> (\<exists>p' \<in> set (p # ps). json_peer_id p' = Some k \<and> json_ip p' = Some (ip a') \<and>
                       json_port p' = Some (port a')))" if a: "map_of info k = Some a" for k a
    proof -
      obtain a1 where a1: "map_of ?info1 k = Some a1"
        "a1 = a \<or> (json_peer_id p = Some k \<and> json_ip p = Some (ip a1) \<and> json_port p = Some (port a1))"
        using a p by (cases "k = pid") (simp_all add: map_of_dict_setitem)
      from Cons.IH [of ?info1] a1(1) obtain a' where a':
        "map_of (snd (update_peers_loop own ps ?info1)) k = Some a'"
        "a' = a1 \<or> (\<exists>p' \<in> set ps. json_peer_id p' = Some k \<and> json_ip p' = Some (ip a') \<and>
                       json_port p' = Some (port a'))"
        by meson
      show ?thesis using a'(1) a'(2) a1(2) by (intro exI [of _ a']) auto
    qed
    show ?thesis unfolding step using len keep by simp
  next
    case False
    show ?thesis
    proof (cases "json_peer_id p = Some own")
      case True
      then have step: "update_peers_loop own (p # ps) info = update_peers_loop own ps info"
        by simp
      show ?thesis unfolding step using Cons.IH [of info] by (simp, meson)
    next
      case notown: False
      have "snd (update_peers_loop own (p # ps) info) = info"
        using False notown
        by (cases "json_peer_id p"; cases "json_ip p"; cases "json_port p") auto
      then show ?thesis by simp
    qed
  qed
qed

text \<open>
  C8. A refresh never deletes an entry of the peer cache, whatever the cache was
  and whatever the exchange with the tracker gave (an exception, a reply that is not a
  success, a peer list of any content): the cache does not get shorter, every peer id
  that was in it is still in it, and the address stored for it is either the one it had
  or one that the reply gives for that peer id.
\<close>

theorem refresh_never_deletes:
  "length (peer_info c) \<le> length (peer_info (update_peer_list exchange c)) \<and>
   set (dict_keys (peer_info c)) \<subseteq> set (dict_keys (peer_info (update_peer_list exchange c))) \<and>
   (\<forall>pid a. map_of (peer_info c) pid = Some a \<longrightarrow>
      (\<exists>a'. map_of (peer_info (update_peer_list exchange c)) pid = Some a' \<and>
         (a' = a \<or>
          (\<exists>result ps p. exchange = Inr result \<and> result_peers result = Some ps \<and> p \<in> set ps \<and>
             json_peer_id p = Some pid \<and> json_ip p = Some (ip a') \<and>
             json_port p = Some (port a')))))"
proof -
  let ?c' = "update_peer_list exchange c"
  have main: "length (peer_info c) \<le> length (peer_info ?c') \<and>
    (\<forall>pid a. map_of (peer_info c) pid = Some a \<longrightarrow>
      (\<exists>a'. map_of (peer_info ?c') pid = Some a' \<and>
         (a' = a \<or>
          (\<exists>result ps p. exchange = Inr result \<and> result_peers result = Some ps \<and> p \<in> set ps \<and>
             json_peer_id p = Some pid \<and> json_ip p = Some (ip a') \<and>
             json_port p = Some (port a')))))"
  proof (cases exchange)
    case (Inl e)
    then show ?thesis by (simp add: update_peer_list_def)
  next
    case (Inr result)
    show ?thesis
    proof (cases "result_status result = Some ''success''")
      case False
      then show ?thesis using Inr by (simp add: update_peer_list_def)
    next
      case True
      show ?thesis
      proof (cases "result_peers result")
        case None
        then show ?thesis using Inr True by (simp add: update_peer_list_def)
      next
        case (Some ps)
        have c': "peer_info ?c' = snd (update_peers_loop (peer_id c) ps (peer_info c))"
          using Inr True Some by (simp add: update_peer_list_def)
        show ?thesis
          unfolding c'
          using update_peers_loop_keeps [of "peer_info c" "peer_id c" ps] Inr Some
          by (simp, meson)
      qed
    qed
  qed
  have keys: "set (dict_keys (peer_info c)) \<subseteq> set (dict_keys (peer_info ?c'))"
  proof
    fix k assume "k \<in> set (dict_keys (peer_info c))"
    then have "map_of (peer_info c) k \<noteq> None"
      by (simp add: dict_keys_def map_of_eq_None_iff)
    then obtain a where "map_of (peer_info c) k = Some a" by auto
    with main obtain a' where "map_of (peer_info ?c') k = Some a'" by meson
    then have "map_of (peer_info ?c') k \<noteq> None" by simp
    then show "k \<in> set (dict_keys (peer_info ?c'))"
      by (simp add: dict_keys_def map_of_eq_None_iff)
  qed
  show ?thesis using main keys by simp
qed

theorem refresh_never_deletes_witness:
  "map_of (peer_info (update_peer_list
      (Inr \<lparr>result_status = Some ''success'',
            result_peers = Some [\<lparr>json_peer_id = Some ''bob'', json_ip = Some ''10.0.0.2'',
                                   json_port = Some 6002\<rparr>]\<rparr>)
      \<lparr>peer_id = ''alice'', listen_port = 6001, tracker_host = ''127.0.0.1'', tracker_port = 5000,
       peer_connections = [],
       peer_info = [(''carol'', \<lparr>ip = ''10.0.0.3'', port = 6003\<rparr>)],
       messages = []\<rparr>)) ''carol'' = Some \<lparr>ip = ''10.0.0.3'', port = 6003\<rparr>"
proof -
  let ?ex = "Inr \<lparr>result_status = Some ''success'',
            result_peers = Some [\<lparr>json_peer_id = Some ''bob'', json_ip = Some ''10.0.0.2'',
                                   json_port = Some 6002\<rparr>]\<rparr> :: py_exception + result_json"
  let ?c = "\<lparr>peer_id = ''alice'', listen_port = 6001, tracker_host = ''127.0.0.1'', tracker_port = 5000,
       peer_connections = [],
       peer_info = [(''carol'', \<lparr>ip = ''10.0.0.3'', port = 6003\<rparr>)],
       messages = []\<rparr>"
  let ?carol = "\<lparr>ip = ''10.0.0.3'', port = 6003\<rparr>"
  have h: "map_of (peer_info ?c) ''carol'' = Some ?carol" by simp
  have all: "\<forall>pid a. map_of (peer_info ?c) pid = Some a \<longrightarrow>
      (\<exists>a'. map_of (peer_info (update_peer_list ?ex ?c)) pid = Some a' \<and>
         (a' = a \<or>
          (\<exists>result ps p. ?ex = Inr result \<and> result_peers result = Some ps \<and> p \<in> set ps \<and>
             json_peer_id p = Some pid \<and> json_ip p = Some (ip a') \<and>
             json_port p = Some (port a'))))"
    using refresh_never_deletes [of ?c ?ex] by (elim conjE)
  from all [rule_format, OF h] obtain a' where
    A: "map_of (peer_info (update_peer_list ?ex ?c)) ''carol'' = Some a' \<and>
        (a' = ?carol \<or>
          (\<exists>result ps p. ?ex = Inr result \<and> result_peers result = Some ps \<and> p \<in> set ps \<and>
             json_peer_id p = Some ''carol'' \<and> json_ip p = Some (ip a') \<and>
             json_port p = Some (port a')))" ..
  have a': "map_of (peer_info (update_peer_list ?ex ?c)) ''carol'' = Some a'"
    using A by (rule conjunct1)
  have alt: "a' = ?carol \<or>
          (\<exists>result ps p. ?ex = Inr result \<and> result_peers result = Some ps \<and> p \<in> set ps \<and>
             json_peer_id p = Some ''carol'' \<and> json_ip p = Some (ip a') \<and>
             json_port p = Some (port a'))"
    using A by (rule conjunct2)
  have "a' = ?carol" using alt by auto
  then show ?thesis using a' by simp
qed

lemma update_peers_loop_not_own:
  "own \<notin> fst ` set info \<Longrightarrow> own \<notin> fst ` set (snd (update_peers_loop own ps info))"
proof (induction ps arbitrary: info)
  case Nil
  then show ?case by simp
next
  case (Cons p ps)
  show ?case
  proof (cases "json_peer_id p")
    case None
    then show ?thesis using Cons.prems by simp
  next
    case (Some pid)
    show ?thesis
    proof (cases "pid = own")
      case True
      then show ?thesis using Some Cons by simp
    next
      case False
      have "own \<notin> fst ` set (dict_setitem pid v info)" for v
        using False Cons.prems unfolding keys_dict_setitem by simp
      then show ?thesis using Some False Cons
        by (cases "json_ip p"; cases "json_port p") simp_all
    qed
  qed
qed

lemma update_peers_loop_untouched:
  "Some k \<notin> json_peer_id ` set ps \<Longrightarrow>
   map_of (snd (update_peers_loop own ps info)) k = map_of info k"
proof (induction ps arbitrary: info)
  case Nil
  then show ?case by simp
next
  case (Cons p ps)
  have rest: "Some k \<notin> json_peer_id ` set ps" and head: "json_peer_id p \<noteq> Some k"
    using Cons.prems by auto
  show ?case
  proof (cases "json_peer_id p")
    case None
    then show ?thesis by simp
  next
    case (Some pid)
    then have ne: "k \<noteq> pid" using head by simp
    show ?thesis using Some ne Cons.IH [OF rest]
      by (cases "json_ip p"; cases "json_port p") (simp_all add: map_of_dict_setitem)
  qed
qed

lemma update_peers_loop_stores:
  assumes "complete_peers ps"
    and "\<lparr>json_peer_id = Some pid, json_ip = Some i, json_port = Some q\<rparr> \<in> set ps"
    and "pid \<noteq> own"
  shows "map_of (snd (update_peers_loop own ps info)) pid = Some \<lparr>ip = i, port = q\<rparr>"
  using assms
proof (induction ps arbitrary: info)
  case Nil
  then show ?case by simp
next
  case (Cons p ps)
  let ?e = "\<lparr>json_peer_id = Some pid, json_ip = Some i, json_port = Some q\<rparr>"
  have cp: "complete_peers ps" using Cons.prems(1) by (simp add: complete_peers_def)
  obtain pid' i' q' where p: "json_peer_id p = Some pid'" "json_ip p = Some i'" "json_port p = Some q'"
    using Cons.prems(1) by (auto simp: complete_peers_def)
  show ?case
  proof (cases "p = ?e")
    case True
    have "json_peer_id p \<notin> json_peer_id ` set ps"
      using Cons.prems(1) by (simp add: complete_peers_def)
    then have "Some pid \<notin> json_peer_id ` set ps" using True by simp
    then have "map_of (snd (update_peers_loop own ps (dict_setitem pid \<lparr>ip = i, port = q\<rparr> info))) pid =
               map_of (dict_setitem pid \<lparr>ip = i, port = q\<rparr> info) pid"
      by (rule update_peers_loop_untouched)
    then show ?thesis using True Cons.prems(3) by (simp add: map_of_dict_setitem)
  next
    case False
    then have mem: "?e \<in> set ps" using Cons.prems(2) by simp
    show ?thesis
      using p Cons.IH [OF cp mem Cons.prems(3)] by simp
  qed
qed

lemma process_peer_message_frame:
  "peer_id (process_peer_message json_loads now message c) = peer_id c \<and>
   peer_info (process_peer_message json_loads now message c) = peer_info c"
  by (simp add: process_peer_message_def split: sum.splits)

lemma connect_to_peer_frame:
  "peer_id (snd (connect_to_peer net pid c)) = peer_id c \<and>
   peer_info (snd (connect_to_peer net pid c)) = peer_info c \<and>
   messages (snd (connect_to_peer net pid c)) = messages c"
  by (simp add: connect_to_peer_def split: option.splits sum.splits)

lemma send_direct_message_frame:
  "peer_id (send_direct_message net pid message c) = peer_id c \<and>
   peer_info (send_direct_message net pid message c) = peer_info c"
proof (cases "map_of (peer_connections c) pid")
  case (Some conn)
  then show ?thesis by (simp add: send_direct_message_def)
next
  case None
  obtain r c1 where r: "connect_to_peer net pid c = (r, c1)" by (cases "connect_to_peer net pid c")
  have "send_direct_message net pid message c = c1"
    using None r by (cases r) (simp_all add: send_direct_message_def)
  then show ?thesis using connect_to_peer_frame [of net pid c] r by simp
qed

lemma broadcast_loop_frame:
  "peer_id (snd (broadcast_loop net msg ks sent c)) = peer_id c \<and>
   peer_info (snd (broadcast_loop net msg ks sent c)) = peer_info c \<and>
   messages (snd (broadcast_loop net msg ks sent c)) = messages c"
proof (induction ks arbitrary: sent c)
  case Nil
  then show ?case by simp
next
  case (Cons pid ks)
  show ?case
  proof (cases "map_of (peer_connections c) pid")
    case (Some conn)
    then show ?thesis using Cons.IH [of _ c] by (cases "sendall net conn msg") simp_all
  next
    case None
    obtain r c1 where r: "connect_to_peer net pid c = (r, c1)" by (cases "connect_to_peer net pid c")
    have f: "peer_id c1 = peer_id c \<and> peer_info c1 = peer_info c \<and> messages c1 = messages c"
      using connect_to_peer_frame [of net pid c] r by simp
    show ?thesis
    proof (cases r)
      case None
      then show ?thesis using \<open>map_of (peer_connections c) pid = None\<close> r f Cons.IH [of _ c1] by simp
    next
      case (Some conn)
      then show ?thesis using \<open>map_of (peer_connections c) pid = None\<close> r f Cons.IH [of _ c1]
        by (cases "sendall net conn msg") simp_all
    qed
  qed
qed

lemma update_peer_list_peer_id: "peer_id (update_peer_list exchange c) = peer_id c"
  by (simp add: update_peer_list_def Let_def split: sum.splits)

lemma update_peer_list_not_own:
  assumes "peer_id c \<notin> fst ` set (peer_info c)"
  shows "peer_id c \<notin> fst ` set (peer_info (update_peer_list exchange c))"
proof (cases exchange)
  case (Inl e)
  then show ?thesis using assms by (simp add: update_peer_list_def)
next
  case (Inr result)
  show ?thesis
  proof (cases "result_status result = Some ''success''")
    case True
    then show ?thesis
      using Inr update_peers_loop_not_own [OF assms]
      by (simp add: update_peer_list_def Let_def)
  next
    case False
    then show ?thesis using Inr assms by (simp add: update_peer_list_def)
  qed
qed

lemma client_step_not_own:
  assumes "peer_id c \<notin> fst ` set (peer_info c)"
  shows "peer_id (client_step json_loads ev c) = peer_id c \<and>
         peer_id c \<notin> fst ` set (peer_info (client_step json_loads ev c))"
proof (cases ev)
  case (Refresh exchange)
  then show ?thesis using update_peer_list_not_own [OF assms] update_peer_list_peer_id by simp
next
  case (PeerMessage now message)
  then show ?thesis using assms process_peer_message_frame [of json_loads now message c] by simp
next
  case (SendDirect net pid message)
  then show ?thesis using assms send_direct_message_frame [of net pid message c] by simp
next
  case (Broadcast net message)
  then show ?thesis using assms broadcast_loop_frame by (simp add: broadcast_message_def)
qed

lemma client_run_not_own:
  "peer_id c \<notin> fst ` set (peer_info c) \<Longrightarrow>
   peer_id (client_run json_loads evs c) = peer_id c \<and>
   peer_id c \<notin> fst ` set (peer_info (client_run json_loads evs c))"
proof (induction evs arbitrary: c)
  case Nil
  then show ?case by simp
next
  case (Cons ev evs)
  have s: "peer_id (client_step json_loads ev c) = peer_id c"
    "peer_id c \<notin> fst ` set (peer_info (client_step json_loads ev c))"
    using client_step_not_own [OF Cons.prems] by simp_all
  have "peer_id (client_step json_loads ev c) \<notin> fst ` set (peer_info (client_step json_loads ev c))"
    using s by simp
  from Cons.IH [OF this] show ?case using s by simp
qed

text \<open>
  C7. Take a client as its constructor leaves it and let it go through any refreshes,
  messages from peers, direct messages and broadcasts. After one more refresh, the
  client's own peer id is not a key of its peer cache, whatever the exchange with the
  tracker gave. When the exchange gave a reply of the shape the tracker sends for
  \<open>GET_PEERS\<close> (status \<open>success\<close>, every element with its three keys, no peer id
  twice), every returned peer other than the client itself has an entry in the cache
  with the returned ip and port.
\<close>

theorem refresh_filters_self:
  "peer_id (update_peer_list exchange
      (client_run json_loads evs (ChatClient_init own lport thost tport))) = own \<and>
   \<not> dict_contains own (peer_info (update_peer_list exchange
      (client_run json_loads evs (ChatClient_init own lport thost tport)))) \<and>
   (\<forall>result ps pid i q.
      exchange = Inr result \<and> result_status result = Some ''success'' \<and>
      result_peers result = Some ps \<and> complete_peers ps \<and>
      \<lparr>json_peer_id = Some pid, json_ip = Some i, json_port = Some q\<rparr> \<in> set ps \<and> pid \<noteq> own \<longrightarrow>
      map_of (peer_info (update_peer_list exchange
         (client_run json_loads evs (ChatClient_init own lport thost tport)))) pid =
        Some \<lparr>ip = i, port = q\<rparr>)"
proof -
  let ?start = "ChatClient_init own lport thost tport"
  let ?c = "client_run json_loads evs ?start"
  let ?c' = "update_peer_list exchange ?c"
  have init: "peer_id ?start \<notin> fst ` set (peer_info ?start)" and id0: "peer_id ?start = own"
    by (simp_all add: ChatClient_init_def)
  have run: "peer_id ?c = own" "peer_id ?c \<notin> fst ` set (peer_info ?c)"
    using client_run_not_own [OF init, of json_loads evs] id0 by simp_all
  have a: "peer_id ?c' = own" using run(1) by (simp add: update_peer_list_peer_id)
  have "peer_id ?c \<notin> fst ` set (peer_info ?c')"
    by (rule update_peer_list_not_own [OF run(2)])
  then have b: "\<not> dict_contains own (peer_info ?c')"
    using run(1) by (simp add: dict_contains_def map_of_eq_None_iff)
  have c: "map_of (peer_info ?c') pid = Some \<lparr>ip = i, port = q\<rparr>"
    if "exchange = Inr result" "result_status result = Some ''success''"
      "result_peers result = Some ps" "complete_peers ps"
      "\<lparr>json_peer_id = Some pid, json_ip = Some i, json_port = Some q\<rparr> \<in> set ps" "pid \<noteq> own"
    for result ps pid i q
  proof -
    have "peer_info ?c' = snd (update_peers_loop own ps (peer_info ?c))"
      using that(1,2,3) run(1) by (simp add: update_peer_list_def)
    then show ?thesis using update_peers_loop_stores [OF that(4,5,6)] by simp
  qed
  show ?thesis using a b c by (intro conjI allI impI; (elim conjE)?) 
qed

theorem refresh_filters_self_witness:
  "\<not> dict_contains ''alice'' (peer_info (update_peer_list
      (Inr \<lparr>result_status = Some ''success'',
            result_peers = Some [\<lparr>json_peer_id = Some ''alice'', json_ip = Some ''10.0.0.1'',
                                   json_port = Some 6001\<rparr>,
                                 \<lparr>json_peer_id = Some ''bob'', json_ip = Some ''10.0.0.2'',
                                   json_port = Some 6002\<rparr>]\<rparr>)
      (client_run (\<lambda>s. Inl JSONDecodeError) [PeerMessage 3 ''hello'']
         (ChatClient_init ''alice'' 6001 ''127.0.0.1'' 5000)))) \<and>
   map_of (peer_info (update_peer_list
      (Inr \<lparr>result_status = Some ''success'',
            result_peers = Some [\<lparr>json_peer_id = Some ''alice'', json_ip = Some ''10.0.0.1'',
                                   json_port = Some 6001\<rparr>,
                                 \<lparr>json_peer_id = Some ''bob'', json_ip = Some ''10.0.0.2'',
                                   json_port = Some 6002\<rparr>]\<rparr>)
      (client_run (\<lambda>s. Inl JSONDecodeError) [PeerMessage 3 ''hello'']
         (ChatClient_init ''alice'' 6001 ''127.0.0.1'' 5000)))) ''bob'' =
     Some \<lparr>ip = ''10.0.0.2'', port = 6002\<rparr>"
proof -
  let ?ps = "[\<lparr>json_peer_id = Some ''alice'', json_ip = Some ''10.0.0.1'', json_port = Some 6001\<rparr>,
              \<lparr>json_peer_id = Some ''bob'', json_ip = Some ''10.0.0.2'', json_port = Some 6002\<rparr>]"
  let ?res = "\<lparr>result_status = Some ''success'', result_peers = Some ?ps\<rparr>"
  let ?ex = "Inr ?res :: py_exception + result_json"
  let ?loads = "(\<lambda>s. Inl JSONDecodeError) :: string \<Rightarrow> py_exception + json"
  let ?evs = "[PeerMessage 3 ''hello'']"
  let ?after = "update_peer_list ?ex
      (client_run ?loads ?evs (ChatClient_init ''alice'' 6001 ''127.0.0.1'' 5000))"
  note inst = refresh_filters_self [of ?ex ?loads ?evs "''alice''" 6001 "''127.0.0.1''" 5000]
  have a: "\<not> dict_contains ''alice'' (peer_info ?after)"
    using inst by (elim conjE)
  have all: "\<forall>result ps pid i q.
      ?ex = Inr result \<and> result_status result = Some ''success'' \<and>
      result_peers result = Some ps \<and> complete_peers ps \<and>
      \<lparr>json_peer_id = Some pid, json_ip = Some i, json_port = Some q\<rparr> \<in> set ps \<and> pid \<noteq> ''alice'' \<longrightarrow>
      map_of (peer_info ?after) pid = Some \<lparr>ip = i, port = q\<rparr>"
    using inst by (elim conjE)
  have hyp: "?ex = Inr ?res \<and> result_status ?res = Some ''success'' \<and>
      result_peers ?res = Some ?ps \<and> complete_peers ?ps \<and>
      \<lparr>json_peer_id = Some ''bob'', json_ip = Some ''10.0.0.2'', json_port = Some 6002\<rparr> \<in> set ?ps \<and>
      ''bob'' \<noteq> ''alice''"
    by (simp add: complete_peers_def)
  have b: "map_of (peer_info ?after) ''bob'' = Some \<lparr>ip = ''10.0.0.2'', port = 6002\<rparr>"
    using all [rule_format, OF hyp] .
  show ?thesis using a b by (rule conjI)
qed

text \<open>
  C10. A payload that \<open>json.loads\<close> rejects, or whose decoded document has no
  \<open>type\<close> equal to \<open>direct\<close> or \<open>broadcast\<close> (a document that is not an object
  included), is dropped: processing it returns the client exactly as it was, so nothing
  is appended to the message history, and no exception leaves the function.
\<close>

theorem unknown_payload_dropped:
  assumes "isl (json_loads message) \<or>
           (\<exists>v. json_loads message = Inr v \<and>
                 json_get v ''type'' \<noteq> Inr (JString ''direct'') \<and>
                 json_get v ''type'' \<noteq> Inr (JString ''broadcast''))"
  shows "process_peer_message json_loads now message c = c"
  using assms
  by (auto simp: process_peer_message_def split: sum.splits)

theorem unknown_payload_dropped_witness:
  "process_peer_message (\<lambda>s. Inr (JObject [(''type'', JString ''ping'')])) 7 ''ping''
     (ChatClient_init ''alice'' 6001 ''127.0.0.1'' 5000) =
   ChatClient_init ''alice'' 6001 ''127.0.0.1'' 5000"
proof -
  let ?loads = "(\<lambda>s. Inr (JObject [(''type'', JString ''ping'')])) :: string \<Rightarrow> py_exception + json"
  have h: "isl (?loads ''ping'') \<or>
           (\<exists>v. ?loads ''ping'' = Inr v \<and>
                 json_get v ''type'' \<noteq> Inr (JString ''direct'') \<and>
                 json_get v ''type'' \<noteq> Inr (JString ''broadcast''))"
    by (simp add: json_get_def)
  from h show ?thesis by (rule unknown_payload_dropped [of ?loads "''ping''"])
qed

lemma tracker_reply_complete:
  assumes "distinct (dict_keys (peers t))"
  shows "complete_peers (map decode_entry (list_peers t))"
proof -
  have "map json_peer_id (map decode_entry (list_peers t)) = map Some (dict_keys (peers t))"
    by (simp add: list_peers_eq decode_entry_def dict_keys_def comp_def case_prod_unfold)
  moreover have "distinct (map Some (dict_keys (peers t)))"
    using assms by (simp add: distinct_map)
  ultimately have "distinct (map json_peer_id (map decode_entry (list_peers t)))" by simp
  then show ?thesis
    unfolding complete_peers_def by (simp add: decode_entry_def)
qed

subsection \<open>Broadcast\<close>

lemma broadcast_loop_step:
  "\<exists>c1. broadcast_loop net msg (pid # ks) sent c =
           broadcast_loop net msg ks (if attempt_fails net msg c pid then sent else sent + 1) c1 \<and>
         peer_id c1 = peer_id c \<and> peer_info c1 = peer_info c \<and> messages c1 = messages c \<and>
         (\<forall>q. q \<noteq> pid \<longrightarrow> map_of (peer_connections c1) q = map_of (peer_connections c) q) \<and>
         (\<forall>peer s. map_of (peer_connections c) pid = None \<longrightarrow> map_of (peer_info c) pid = Some peer \<longrightarrow>
            connect net (ip peer) (port peer) = Inr s \<longrightarrow> map_of (peer_connections c1) pid = Some s) \<and>
         (\<forall>s. map_of (peer_connections c) pid = Some s \<longrightarrow> map_of (peer_connections c1) pid = Some s)"
proof (cases "map_of (peer_connections c) pid")
  case (Some conn)
  then show ?thesis
    by (intro exI [of _ c]) (cases "sendall net conn msg"; simp add: attempt_fails_def)
next
  case None
  show ?thesis
  proof (cases "map_of (peer_info c) pid")
    case nopeer: None
    then show ?thesis using None
      by (intro exI [of _ c]) (simp add: attempt_fails_def connect_to_peer_def)
  next
    case (Some peer)
    show ?thesis
    proof (cases "connect net (ip peer) (port peer)")
      case (Inl e)
      then show ?thesis using None Some
        by (intro exI [of _ c]) (simp add: attempt_fails_def connect_to_peer_def)
    next
      case (Inr s)
      let ?c1 = "c\<lparr>peer_connections := dict_setitem pid s (peer_connections c)\<rparr>"
      have con: "connect_to_peer net pid c = (Some s, ?c1)"
        using Some Inr by (simp add: connect_to_peer_def)
      have fails: "attempt_fails net msg c pid = (sendall net s msg \<noteq> None)"
        using None Some Inr by (simp add: attempt_fails_def)
      have run: "broadcast_loop net msg (pid # ks) sent c =
           broadcast_loop net msg ks (if attempt_fails net msg c pid then sent else sent + 1) ?c1"
        using None con fails by (cases "sendall net s msg") simp_all
      have others: "\<forall>q. q \<noteq> pid \<longrightarrow> map_of (peer_connections ?c1) q = map_of (peer_connections c) q"
        by (simp add: map_of_dict_setitem)
      have new: "map_of (peer_connections ?c1) pid = Some s"
        by (simp add: map_of_dict_setitem)
      show ?thesis
        using run others new None Some Inr by (intro exI [of _ ?c1]) simp
    qed
  qed
qed

lemma attempt_fails_cong:
  assumes a: "peer_info c1 = peer_info c"
    and b: "map_of (peer_connections c1) q = map_of (peer_connections c) q"
  shows "attempt_fails net msg c1 q = attempt_fails net msg c q"
  unfolding attempt_fails_def a b by (rule refl)

lemma broadcast_loop_count:
  assumes "distinct ks"
  shows "\<exists>c'. broadcast_loop net msg ks sent c =
             (sent + length (filter (\<lambda>pid. \<not> attempt_fails net msg c pid) ks), c') \<and>
           peer_id c' = peer_id c \<and> peer_info c' = peer_info c \<and> messages c' = messages c \<and>
           (\<forall>q. q \<notin> set ks \<longrightarrow> map_of (peer_connections c') q = map_of (peer_connections c) q) \<and>
           (\<forall>pid peer s. pid \<in> set ks \<longrightarrow> map_of (peer_connections c) pid = None \<longrightarrow>
              map_of (peer_info c) pid = Some peer \<longrightarrow> connect net (ip peer) (port peer) = Inr s \<longrightarrow>
              map_of (peer_connections c') pid = Some s) \<and>
           (\<forall>pid s. map_of (peer_connections c) pid = Some s \<longrightarrow>
              map_of (peer_connections c') pid = Some s)"
  using assms
proof (induction ks arbitrary: sent c)
  case Nil
  then show ?case by simp
next
  case (Cons pid ks)
  have d: "distinct ks" and notin: "pid \<notin> set ks" using Cons.prems by simp_all
  let ?sent1 = "if attempt_fails net msg c pid then sent else sent + 1"
  from broadcast_loop_step [of net msg pid ks sent c] obtain c1 where
    H1: "broadcast_loop net msg (pid # ks) sent c = broadcast_loop net msg ks ?sent1 c1 \<and>
         peer_id c1 = peer_id c \<and> peer_info c1 = peer_info c \<and> messages c1 = messages c \<and>
         (\<forall>q. q \<noteq> pid \<longrightarrow> map_of (peer_connections c1) q = map_of (peer_connections c) q) \<and>
         (\<forall>peer s. map_of (peer_connections c) pid = None \<longrightarrow> map_of (peer_info c) pid = Some peer \<longrightarrow>
            connect net (ip peer) (port peer) = Inr s \<longrightarrow> map_of (peer_connections c1) pid = Some s) \<and>
         (\<forall>s. map_of (peer_connections c) pid = Some s \<longrightarrow> map_of (peer_connections c1) pid = Some s)" ..
  have step: "broadcast_loop net msg (pid # ks) sent c = broadcast_loop net msg ks ?sent1 c1"
    using H1 by (elim conjE)
  have id1: "peer_id c1 = peer_id c" using H1 by (elim conjE)
  have info1: "peer_info c1 = peer_info c" using H1 by (elim conjE)
  have msgs1: "messages c1 = messages c" using H1 by (elim conjE)
  have others1a: "\<forall>q. q \<noteq> pid \<longrightarrow> map_of (peer_connections c1) q = map_of (peer_connections c) q"
    using H1 by (elim conjE)
  have new1a: "\<forall>peer s. map_of (peer_connections c) pid = None \<longrightarrow> map_of (peer_info c) pid = Some peer \<longrightarrow>
            connect net (ip peer) (port peer) = Inr s \<longrightarrow> map_of (peer_connections c1) pid = Some s"
    using H1 by (elim conjE)
  have old1a: "\<forall>s. map_of (peer_connections c) pid = Some s \<longrightarrow> map_of (peer_connections c1) pid = Some s"
    using H1 by (elim conjE)
  note others1 = others1a [rule_format] and new1 = new1a [rule_format] and old1 = old1a [rule_format]
  from Cons.IH [OF d, of ?sent1 c1] obtain c' where
    H2: "broadcast_loop net msg ks ?sent1 c1 =
             (?sent1 + length (filter (\<lambda>pid. \<not> attempt_fails net msg c1 pid) ks), c') \<and>
           peer_id c' = peer_id c1 \<and> peer_info c' = peer_info c1 \<and> messages c' = messages c1 \<and>
           (\<forall>q. q \<notin> set ks \<longrightarrow> map_of (peer_connections c') q = map_of (peer_connections c1) q) \<and>
           (\<forall>pid peer s. pid \<in> set ks \<longrightarrow> map_of (peer_connections c1) pid = None \<longrightarrow>
              map_of (peer_info c1) pid = Some peer \<longrightarrow> connect net (ip peer) (port peer) = Inr s \<longrightarrow>
              map_of (peer_connections c') pid = Some s) \<and>
           (\<forall>pid s. map_of (peer_connections c1) pid = Some s \<longrightarrow>
              map_of (peer_connections c') pid = Some s)" ..
  have run: "broadcast_loop net msg ks ?sent1 c1 =
            (?sent1 + length (filter (\<lambda>pid. \<not> attempt_fails net msg c1 pid) ks), c')"
    using H2 by (elim conjE)
  have id': "peer_id c' = peer_id c1" using H2 by (elim conjE)
  have info': "peer_info c' = peer_info c1" using H2 by (elim conjE)
  have msgs': "messages c' = messages c1" using H2 by (elim conjE)
  have others'a: "\<forall>q. q \<notin> set ks \<longrightarrow> map_of (peer_connections c') q = map_of (peer_connections c1) q"
    using H2 by (elim conjE)
  have new'a: "\<forall>pid peer s. pid \<in> set ks \<longrightarrow> map_of (peer_connections c1) pid = None \<longrightarrow>
              map_of (peer_info c1) pid = Some peer \<longrightarrow> connect net (ip peer) (port peer) = Inr s \<longrightarrow>
              map_of (peer_connections c') pid = Some s"
    using H2 by (elim conjE)
  have old'a: "\<forall>pid s. map_of (peer_connections c1) pid = Some s \<longrightarrow>
              map_of (peer_connections c') pid = Some s"
    using H2 by (elim conjE)
  note others' = others'a [rule_format] and new' = new'a [rule_format] and old' = old'a [rule_format]
  have same: "filter (\<lambda>q. \<not> attempt_fails net msg c1 q) ks = filter (\<lambda>q. \<not> attempt_fails net msg c q) ks"
  proof (rule filter_cong [OF refl])
    fix q assume "q \<in> set ks"
    then have "q \<noteq> pid" using notin by auto
    then have "attempt_fails net msg c1 q = attempt_fails net msg c q"
      using attempt_fails_cong [OF info1 others1] by simp
    then show "(\<not> attempt_fails net msg c1 q) = (\<not> attempt_fails net msg c q)" by simp
  qed
  have count: "broadcast_loop net msg (pid # ks) sent c =
      (sent + length (filter (\<lambda>q. \<not> attempt_fails net msg c q) (pid # ks)), c')"
    unfolding step run same by simp
  have others: "\<forall>q. q \<notin> set (pid # ks) \<longrightarrow> map_of (peer_connections c') q = map_of (peer_connections c) q"
    using others' others1 by simp
  have old: "\<forall>q s. map_of (peer_connections c) q = Some s \<longrightarrow> map_of (peer_connections c') q = Some s"
  proof (intro allI impI)
    fix q s assume a: "map_of (peer_connections c) q = Some s"
    have "map_of (peer_connections c1) q = Some s"
      using a old1 others1 by (cases "q = pid") simp_all
    then show "map_of (peer_connections c') q = Some s" by (rule old')
  qed
  have new: "\<forall>q peer s. q \<in> set (pid # ks) \<longrightarrow> map_of (peer_connections c) q = None \<longrightarrow>
              map_of (peer_info c) q = Some peer \<longrightarrow> connect net (ip peer) (port peer) = Inr s \<longrightarrow>
              map_of (peer_connections c') q = Some s"
  proof (intro allI impI)
    fix q peer s
    assume q: "q \<in> set (pid # ks)" and n: "map_of (peer_connections c) q = None"
      and p: "map_of (peer_info c) q = Some peer" and k: "connect net (ip peer) (port peer) = Inr s"
    show "map_of (peer_connections c') q = Some s"
    proof (cases "q = pid")
      case True
      have "map_of (peer_connections c1) pid = Some s" using new1 n p k True by simp
      then show ?thesis using old' True by simp
    next
      case False
      then have "q \<in> set ks" using q by simp
      moreover have "map_of (peer_connections c1) q = None" using others1 [OF False] n by simp
      moreover have "map_of (peer_info c1) q = Some peer" using info1 p by simp
      ultimately show ?thesis using k by (rule new')
    qed
  qed
  show ?case
    using count id' id1 info' info1 msgs' msgs1 others old new
    by (intro exI [of _ c']) simp
qed

text \<open>
  C4. For a peer cache of \<open>N\<close> peers (a dictionary: no key twice) of which \<open>K\<close> fail
  to connect or to send, \<open>broadcast_message\<close> reports \<open>N - K\<close> and raises nothing.
  Every cached peer is tried, also after a failure: the count says so, and every peer
  that had no cached connection and whose dial succeeds has its new connection in the
  connection cache afterwards. Connections cached before stay, and the peer cache and
  the message history are unchanged.
\<close>

theorem broadcast_counts_successes:
  assumes "distinct (dict_keys (peer_info c))"
  shows "\<exists>c'. broadcast_message net message c =
             (length (peer_info c) -
                length (filter (attempt_fails net (envelope ''broadcast'' (peer_id c) message) c)
                          (dict_keys (peer_info c))), c') \<and>
           length (filter (attempt_fails net (envelope ''broadcast'' (peer_id c) message) c)
                     (dict_keys (peer_info c))) \<le> length (peer_info c) \<and>
           peer_id c' = peer_id c \<and> peer_info c' = peer_info c \<and> messages c' = messages c \<and>
           (\<forall>pid peer s. map_of (peer_connections c) pid = None \<longrightarrow>
              map_of (peer_info c) pid = Some peer \<longrightarrow> connect net (ip peer) (port peer) = Inr s \<longrightarrow>
              map_of (peer_connections c') pid = Some s) \<and>
           (\<forall>pid s. map_of (peer_connections c) pid = Some s \<longrightarrow>
              map_of (peer_connections c') pid = Some s)"
proof -
  let ?msg = "envelope ''broadcast'' (peer_id c) message"
  let ?ks = "dict_keys (peer_info c)"
  from broadcast_loop_count [OF assms, of net ?msg 0 c] obtain c' where
    H: "broadcast_loop net ?msg ?ks 0 c =
             (0 + length (filter (\<lambda>pid. \<not> attempt_fails net ?msg c pid) ?ks), c') \<and>
           peer_id c' = peer_id c \<and> peer_info c' = peer_info c \<and> messages c' = messages c \<and>
           (\<forall>q. q \<notin> set ?ks \<longrightarrow> map_of (peer_connections c') q = map_of (peer_connections c) q) \<and>
           (\<forall>pid peer s. pid \<in> set ?ks \<longrightarrow> map_of (peer_connections c) pid = None \<longrightarrow>
              map_of (peer_info c) pid = Some peer \<longrightarrow> connect net (ip peer) (port peer) = Inr s \<longrightarrow>
              map_of (peer_connections c') pid = Some s) \<and>
           (\<forall>pid s. map_of (peer_connections c) pid = Some s \<longrightarrow>
              map_of (peer_connections c') pid = Some s)" ..
  have run: "broadcast_loop net ?msg ?ks 0 c =
             (0 + length (filter (\<lambda>pid. \<not> attempt_fails net ?msg c pid) ?ks), c')"
    using H by (elim conjE)
  have id': "peer_id c' = peer_id c" using H by (elim conjE)
  have info': "peer_info c' = peer_info c" using H by (elim conjE)
  have msgs': "messages c' = messages c" using H by (elim conjE)
  have new'a: "\<forall>pid peer s. pid \<in> set ?ks \<longrightarrow> map_of (peer_connections c) pid = None \<longrightarrow>
              map_of (peer_info c) pid = Some peer \<longrightarrow> connect net (ip peer) (port peer) = Inr s \<longrightarrow>
              map_of (peer_connections c') pid = Some s"
    using H by (elim conjE)
  have old: "\<forall>pid s. map_of (peer_connections c) pid = Some s \<longrightarrow>
              map_of (peer_connections c') pid = Some s"
    using H by (elim conjE)
  note new' = new'a [rule_format]
  have split: "length (filter (attempt_fails net ?msg c) ?ks) +
               length (filter (\<lambda>pid. \<not> attempt_fails net ?msg c pid) ?ks) = length ?ks"
    by (rule sum_length_filter_compl)
  have len: "length ?ks = length (peer_info c)" by (simp add: dict_keys_def)
  have count: "broadcast_message net message c =
      (length (peer_info c) - length (filter (attempt_fails net ?msg c) ?ks), c')"
    using run split len by (simp add: broadcast_message_def)
  have le: "length (filter (attempt_fails net ?msg c) ?ks) \<le> length (peer_info c)"
    using split len by simp
  have new: "\<forall>pid peer s. map_of (peer_connections c) pid = None \<longrightarrow>
              map_of (peer_info c) pid = Some peer \<longrightarrow> connect net (ip peer) (port peer) = Inr s \<longrightarrow>
              map_of (peer_connections c') pid = Some s"
  proof (intro allI impI)
    fix pid peer s
    assume n: "map_of (peer_connections c) pid = None" and p: "map_of (peer_info c) pid = Some peer"
      and k: "connect net (ip peer) (port peer) = Inr s"
    have "(pid, peer) \<in> set (peer_info c)" using p by (rule map_of_SomeD)
    then have "fst (pid, peer) \<in> fst ` set (peer_info c)" by (rule imageI)
    then have "pid \<in> set ?ks" by (simp add: dict_keys_def)
    then show "map_of (peer_connections c') pid = Some s" using n p k by (rule new')
  qed
  show ?thesis
    using count le id' info' msgs' new old by (intro exI [of _ c'] conjI)
qed

theorem broadcast_counts_successes_witness:
  "\<exists>c'. broadcast_message
           \<lparr>connect = (\<lambda>i p. if p = 6002 then Inr 1 else Inl OSError), sendall = (\<lambda>s m. None)\<rparr>
           ''hi''
           \<lparr>peer_id = ''alice'', listen_port = 6001, tracker_host = ''127.0.0.1'', tracker_port = 5000,
            peer_connections = [],
            peer_info = [(''bob'', \<lparr>ip = ''10.0.0.2'', port = 6002\<rparr>),
                         (''carol'', \<lparr>ip = ''10.0.0.3'', port = 6003\<rparr>)],
            messages = []\<rparr> = (1, c')"
proof -
  let ?net = "\<lparr>connect = (\<lambda>i p. if p = 6002 then Inr 1 else Inl OSError), sendall = (\<lambda>s m. None)\<rparr>
                :: network"
  let ?c = "\<lparr>peer_id = ''alice'', listen_port = 6001, tracker_host = ''127.0.0.1'', tracker_port = 5000,
            peer_connections = [],
            peer_info = [(''bob'', \<lparr>ip = ''10.0.0.2'', port = 6002\<rparr>),
                         (''carol'', \<lparr>ip = ''10.0.0.3'', port = 6003\<rparr>)],
            messages = []\<rparr>"
  let ?msg = "envelope ''broadcast'' (peer_id ?c) ''hi''"
  have d: "distinct (dict_keys (peer_info ?c))"
    by (simp add: dict_keys_def)
  from broadcast_counts_successes [OF d, of ?net "''hi''"] obtain c' where
    H: "broadcast_message ?net ''hi'' ?c =
             (length (peer_info ?c) -
                length (filter (attempt_fails ?net ?msg ?c) (dict_keys (peer_info ?c))), c') \<and>
           length (filter (attempt_fails ?net ?msg ?c) (dict_keys (peer_info ?c))) \<le>
             length (peer_info ?c) \<and>
           peer_id c' = peer_id ?c \<and> peer_info c' = peer_info ?c \<and> messages c' = messages ?c \<and>
           (\<forall>pid peer s. map_of (peer_connections ?c) pid = None \<longrightarrow>
              map_of (peer_info ?c) pid = Some peer \<longrightarrow> connect ?net (ip peer) (port peer) = Inr s \<longrightarrow>
              map_of (peer_connections c') pid = Some s) \<and>
           (\<forall>pid s. map_of (peer_connections ?c) pid = Some s \<longrightarrow>
              map_of (peer_connections c') pid = Some s)" ..
  have run: "broadcast_message ?net ''hi'' ?c =
             (length (peer_info ?c) -
                length (filter (attempt_fails ?net ?msg ?c) (dict_keys (peer_info ?c))), c')"
    using H by (elim conjE)
  have n: "length (peer_info ?c) -
             length (filter (attempt_fails ?net ?msg ?c) (dict_keys (peer_info ?c))) = 1"
    by (simp add: attempt_fails_def dict_keys_def)
  show ?thesis using run unfolding n by (intro exI [of _ c'])
qed

end
